theory Spec2Isabelle
  imports Main
begin

section \<open>CAGED chord voicings: shallow embedding\<close>

text \<open>
  The embedding follows five source modules: the shape templates and the transposer
  (cagedShapes.ts), the Tonal.js wrappers (musicTheory.ts), the chords-db access layer
  (chordDatabase.ts), the enhanced assembler (cagedSystemEnhanced.ts), and the first
  generator (cagedSystem.ts).

  JavaScript numbers are modelled by \<open>int\<close>: every number the code handles here is an
  integer far below 2^53. Note names are strings. A thrown \<open>Error\<close> is the \<open>Inl\<close>
  branch of a sum.

  Two things are outside the repository and enter the model as parameters:
  \<^item> \<open>Chord.get\<close> of Tonal.js, which the chord-tone oracle \<open>getChordNotes\<close> wraps: a
    function from a chord name to the chord, of which the code reads the \<open>empty\<close> flag
    and the notes; each note is given by its chroma (the only thing the code ever
    reads of an oracle note is \<open>Note.chroma\<close>);
  \<^item> the chords-db table \<open>guitar.chords\<close>: a function from key name to the chords
    stored under that key.
\<close>

subsection \<open>JavaScript primitives\<close>

definition jsRem :: "int \<Rightarrow> int \<Rightarrow> int" where
  \<comment> \<open>The \<open>%\<close> operator on integers: the remainder takes the sign of the dividend.\<close>
  "jsRem a b = sgn a * (\<bar>a\<bar> mod \<bar>b\<bar>)"

fun indexFrom :: "nat \<Rightarrow> 'a list \<Rightarrow> 'a \<Rightarrow> int" where
  "indexFrom n [] x = -1"
| "indexFrom n (y # ys) x = (if y = x then int n else indexFrom (Suc n) ys x)"

definition indexOf :: "'a list \<Rightarrow> 'a \<Rightarrow> int" where
  \<comment> \<open>\<open>Array.prototype.indexOf\<close>: position of the first occurrence, or -1.\<close>
  "indexOf xs x = indexFrom 0 xs x"

definition nthOpt :: "'a list \<Rightarrow> nat \<Rightarrow> 'a option" where
  \<comment> \<open>\<open>xs[i]\<close>; \<open>None\<close> stands for \<open>undefined\<close> beyond the end of the array.\<close>
  "nthOpt xs i = (if i < length xs then Some (xs ! i) else None)"

definition lookupOr :: "('k \<times> 'v) list \<Rightarrow> 'k \<Rightarrow> 'v \<Rightarrow> 'v" where
  \<comment> \<open>\<open>table[key] || fallback\<close> for a table whose values are all truthy.\<close>
  "lookupOr table k d = (case map_of table k of Some v \<Rightarrow> v | None \<Rightarrow> d)"

definition slice0 :: "'a list \<Rightarrow> int \<Rightarrow> 'a list" where
  \<comment> \<open>\<open>xs.slice(0, n)\<close>; a negative end counts from the end of the array.\<close>
  "slice0 xs n = (if 0 \<le> n then take (nat n) xs else take (nat (int (length xs) + n)) xs)"

datatype error = InvalidNote string

subsection \<open>Shape templates (cagedShapes.ts)\<close>

datatype shape = ShC | ShA | ShG | ShE | ShD

datatype quality = Major | Minor

record CAGEDShapeTemplate =
  tmpl_frets :: "int list"
  tmpl_rootString :: nat
  tmpl_rootFret :: int
  tmpl_fingers :: "int list"

fun CAGED_SHAPES :: "shape \<Rightarrow> quality \<Rightarrow> CAGEDShapeTemplate" where
  "CAGED_SHAPES ShE Major =
     \<lparr>tmpl_frets = [0, 2, 2, 1, 0, 0], tmpl_rootString = 0, tmpl_rootFret = 0,
      tmpl_fingers = [0, 2, 3, 1, 0, 0]\<rparr>"
| "CAGED_SHAPES ShE Minor =
     \<lparr>tmpl_frets = [0, 2, 2, 0, 0, 0], tmpl_rootString = 0, tmpl_rootFret = 0,
      tmpl_fingers = [0, 2, 3, 0, 0, 0]\<rparr>"
| "CAGED_SHAPES ShA Major =
     \<lparr>tmpl_frets = [-1, 0, 2, 2, 2, 0], tmpl_rootString = 1, tmpl_rootFret = 0,
      tmpl_fingers = [0, 0, 2, 3, 4, 0]\<rparr>"
| "CAGED_SHAPES ShA Minor =
     \<lparr>tmpl_frets = [-1, 0, 2, 2, 1, 0], tmpl_rootString = 1, tmpl_rootFret = 0,
      tmpl_fingers = [0, 0, 2, 3, 1, 0]\<rparr>"
| "CAGED_SHAPES ShD Major =
     \<lparr>tmpl_frets = [-1, -1, 0, 2, 3, 2], tmpl_rootString = 2, tmpl_rootFret = 0,
      tmpl_fingers = [0, 0, 0, 1, 3, 2]\<rparr>"
| "CAGED_SHAPES ShD Minor =
     \<lparr>tmpl_frets = [-1, -1, 0, 2, 3, 1], tmpl_rootString = 2, tmpl_rootFret = 0,
      tmpl_fingers = [0, 0, 0, 2, 3, 1]\<rparr>"
| "CAGED_SHAPES ShG Major =
     \<lparr>tmpl_frets = [3, 2, 0, 0, 0, 3], tmpl_rootString = 0, tmpl_rootFret = 3,
      tmpl_fingers = [3, 2, 0, 0, 0, 4]\<rparr>"
| "CAGED_SHAPES ShG Minor =
     \<lparr>tmpl_frets = [3, 1, 0, 0, 3, 3], tmpl_rootString = 0, tmpl_rootFret = 3,
      tmpl_fingers = [3, 1, 0, 0, 4, 4]\<rparr>"
| "CAGED_SHAPES ShC Major =
     \<lparr>tmpl_frets = [-1, 3, 2, 0, 1, 0], tmpl_rootString = 1, tmpl_rootFret = 3,
      tmpl_fingers = [0, 3, 2, 0, 1, 0]\<rparr>"
| "CAGED_SHAPES ShC Minor =
     \<lparr>tmpl_frets = [-1, 3, 1, 0, 1, 3], tmpl_rootString = 1, tmpl_rootFret = 3,
      tmpl_fingers = [0, 4, 2, 0, 1, 3]\<rparr>"

fun shapeName :: "shape \<Rightarrow> string" where
  "shapeName ShC = ''C''"
| "shapeName ShA = ''A''"
| "shapeName ShG = ''G''"
| "shapeName ShE = ''E''"
| "shapeName ShD = ''D''"

fun qualityName :: "quality \<Rightarrow> string" where
  "qualityName Major = ''major''"
| "qualityName Minor = ''minor''"

subsection \<open>Note arithmetic (cagedShapes.ts)\<close>

definition flatToSharp :: "(string \<times> string) list" where
  "flatToSharp =
     [(''Db'', ''C#''), (''Eb'', ''D#''), (''Gb'', ''F#''), (''Ab'', ''G#''), (''Bb'', ''A#'')]"

definition normalizeNoteName :: "string \<Rightarrow> string" where
  "normalizeNoteName note = lookupOr flatToSharp note note"

definition stringTuning :: "string list" where
  "stringTuning = [''E'', ''A'', ''D'', ''G'', ''B'', ''E'']"

definition chromatic :: "string list" where
  "chromatic =
     [''C'', ''C#'', ''D'', ''D#'', ''E'', ''F'', ''F#'', ''G'', ''G#'', ''A'', ''A#'', ''B'']"

definition getNoteOnString :: "string \<Rightarrow> nat \<Rightarrow> error + int" where
  "getNoteOnString note stringIndex =
     (let normalizedNote = normalizeNoteName note;
          openNoteIndex = (case nthOpt stringTuning stringIndex of
                             Some openNote \<Rightarrow> indexOf chromatic openNote
                           | None \<Rightarrow> -1);
          targetNoteIndex = indexOf chromatic normalizedNote
      in if openNoteIndex = -1 \<or> targetNoteIndex = -1 then Inl (InvalidNote note)
         else Inr (jsRem (targetNoteIndex - openNoteIndex + 12) 12))"

subsection \<open>Tonal.js wrappers (musicTheory.ts)\<close>

text \<open>
  A note handed back by Tonal.js is represented by what \<open>Note.chroma\<close> answers for it:
  \<open>Some c\<close> with the pitch class \<open>c\<close>, or \<open>None\<close> for the empty note that Tonal.js
  produces from an undefined operand. \<open>Note_chroma\<close> is needed for the names of the
  tuning only, which are all in the chromatic table. \<open>Note_transpose\<close> stands for
  \<open>Note.transpose(openNote, Interval.fromSemitones(fret))\<close>: the note that many
  semitones above the open string, so its chroma is the chroma of the open string plus
  the number of semitones, modulo 12. The notes of a chord are chromas as well.
\<close>

type_synonym chromaNote = "int option"

record TonalChord =
  chord_empty :: bool
  chord_notes :: "int list"

type_synonym chordOracle = "string \<Rightarrow> TonalChord"

definition qualityMap :: "(string \<times> string) list" where
  "qualityMap =
     [(''major'', ''''), (''minor'', ''m''), (''maj7'', ''maj7''), (''m7'', ''m7''),
      (''7'', ''7''), (''sus2'', ''sus2''), (''sus4'', ''sus4''), (''dim'', ''dim''),
      (''aug'', ''aug''), (''add9'', ''add9''), (''6'', ''6''), (''9'', ''9''),
      (''m6'', ''m6''), (''dim7'', ''dim7''), (''m7b5'', ''m7b5'')]"

definition getChordNotes :: "chordOracle \<Rightarrow> string \<Rightarrow> string \<Rightarrow> int list" where
  \<comment> \<open>The first argument is \<open>Chord.get\<close>. Keys that a JavaScript object inherits from
      its prototype are not looked at.\<close>
  "getChordNotes Chord_get root qual =
     (let mappedQuality = (case map_of qualityMap qual of Some m \<Rightarrow> m | None \<Rightarrow> qual);
          chordName = root @ mappedQuality;
          chord = Chord_get chordName
      in if \<not> chord_empty chord then chord_notes chord
         else (let fallbackChord = Chord_get (root @ qual)
               in if chord_empty fallbackChord then [] else chord_notes fallbackChord))"

definition STANDARD_TUNING :: "string list" where
  "STANDARD_TUNING = [''E'', ''A'', ''D'', ''G'', ''B'', ''E'']"

definition Note_chroma :: "string \<Rightarrow> int option" where
  "Note_chroma name =
     (let i = indexOf chromatic (normalizeNoteName name) in if i = -1 then None else Some i)"

definition Note_transpose :: "string option \<Rightarrow> int \<Rightarrow> chromaNote" where
  "Note_transpose openNote semitones =
     (case openNote of
        None \<Rightarrow> None
      | Some n \<Rightarrow> map_option (\<lambda>c. (c + semitones) mod 12) (Note_chroma n))"

definition fretsToNotes :: "int list \<Rightarrow> string list \<Rightarrow> chromaNote list" where
  "fretsToNotes frets tuning =
     map (\<lambda>(stringIndex, fret). Note_transpose (nthOpt tuning stringIndex) fret)
       (filter (\<lambda>(stringIndex, fret). fret \<noteq> -1) (enumerate 0 frets))"

definition validateChordVoicing :: "int list \<Rightarrow> int list \<Rightarrow> string list \<Rightarrow> bool" where
  "validateChordVoicing frets expectedNotes tuning =
     (if expectedNotes = [] then False
      else let playedNotes = fretsToNotes frets tuning
           in list_all (\<lambda>expectedChroma.
                list_ex (\<lambda>playedNote. playedNote = Some expectedChroma) playedNotes)
              expectedNotes)"

subsection \<open>The transposer (cagedShapes.ts)\<close>

definition validateString :: "int list \<Rightarrow> nat \<Rightarrow> int \<Rightarrow> int" where
  \<comment> \<open>The callback of the validation pass, for one string of the transposed pattern.
      The pattern has six strings, so the index is below six; beyond that the array
      write of the source would add a seventh entry on a string without tuning, whose
      note has no chroma, and the answer would be -1 as it is here.\<close>
  "validateString theoreticalNotes stringIndex fret =
     (if fret = -1 then -1
      else if fret < 0 then -1
      else let singleStringFrets = (replicate 6 (-1)) [stringIndex := fret];
               notes = fretsToNotes singleStringFrets STANDARD_TUNING
           in case notes of
                [] \<Rightarrow> -1
              | noteAtFret # _ \<Rightarrow>
                  (if list_ex (\<lambda>theoreticalNote. Some theoreticalNote = noteAtFret)
                        theoreticalNotes
                   then fret else -1))"

definition transposeShape ::
  "chordOracle \<Rightarrow> string \<Rightarrow> shape \<Rightarrow> quality \<Rightarrow> bool \<Rightarrow> error + int list" where
  "transposeShape Chord_get rootNote shapeType qual validate =
     (let template = CAGED_SHAPES shapeType qual
      in case getNoteOnString rootNote (tmpl_rootString template) of
           Inl e \<Rightarrow> Inl e
         | Inr targetRootFret \<Rightarrow>
             (let offset = targetRootFret - tmpl_rootFret template;
                  transposed = map (\<lambda>fret. if fret = -1 then -1 else fret + offset)
                                 (tmpl_frets template)
              in if validate then
                   (let theoreticalNotes = getChordNotes Chord_get rootNote (qualityName qual)
                    in if theoreticalNotes = [] then Inr transposed
                       else Inr (map (\<lambda>(stringIndex, fret).
                                        validateString theoreticalNotes stringIndex fret)
                                   (enumerate 0 transposed)))
                 else Inr transposed))"

subsection \<open>The chords-db access layer (chordDatabase.ts)\<close>

text \<open>
  The optional \<open>capo\<close> field of a position is never read and is left out. The table
  \<open>guitar.chords\<close> is a parameter: \<open>None\<close> where the key is missing or not an array.
\<close>

record ChordPosition =
  pos_frets :: "int list"
  pos_fingers :: "int list"
  pos_barres :: "int list"
  pos_baseFret :: int
  pos_midi :: "int list"

record ChordData =
  cd_key :: string
  cd_suffix :: string
  cd_positions :: "ChordPosition list"

type_synonym chordTable = "string \<Rightarrow> ChordData list option"

definition mapQualityToSuffix :: "string \<Rightarrow> string" where
  "mapQualityToSuffix qual =
     lookupOr
       [('''', ''major''), (''major'', ''major''), (''minor'', ''minor''), (''m'', ''minor''),
        (''7'', ''7''), (''maj7'', ''maj7''), (''M7'', ''maj7''), (''m7'', ''m7''),
        (''min7'', ''m7''), (''sus2'', ''sus2''), (''sus4'', ''sus4''), (''dim'', ''dim''),
        (''aug'', ''aug''), (''add9'', ''add9''), (''6'', ''6''), (''9'', ''9''),
        (''m6'', ''m6''), (''dim7'', ''dim7''), (''m7b5'', ''m7b5''), (''11'', ''11''),
        (''13'', ''13''), (''sus'', ''sus4''), (''dom7'', ''7'')]
       qual qual"

definition normalizeNoteForDB :: "string \<Rightarrow> string" where
  "normalizeNoteForDB note =
     (let normalized =
            lookupOr [(''Db'', ''C#''), (''Eb'', ''Eb''), (''Gb'', ''F#''), (''Ab'', ''Ab''),
                      (''Bb'', ''Bb'')] note note
      in lookupOr
           [(''C#'', ''Csharp''), (''F#'', ''Fsharp''), (''C'', ''C''), (''D'', ''D''),
            (''Eb'', ''Eb''), (''E'', ''E''), (''F'', ''F''), (''G'', ''G''), (''Ab'', ''Ab''),
            (''A'', ''A''), (''Bb'', ''Bb''), (''B'', ''B'')]
           normalized normalized)"

definition getChordVoicingsFromDB :: "chordTable \<Rightarrow> string \<Rightarrow> string \<Rightarrow> ChordPosition list" where
  "getChordVoicingsFromDB chords note qual =
     (let suffix = mapQualityToSuffix qual;
          keyName = normalizeNoteForDB note
      in case chords keyName of
           None \<Rightarrow> []
         | Some chordsForKey \<Rightarrow>
             (case find (\<lambda>c. cd_suffix c = suffix) chordsForKey of
                None \<Rightarrow> []
              | Some chord \<Rightarrow> cd_positions chord))"

definition toAbsoluteFrets :: "ChordPosition \<Rightarrow> int list" where
  "toAbsoluteFrets position =
     (if pos_baseFret position \<le> 1 then pos_frets position
      else map (\<lambda>fret. if fret = -1 then -1
                        else if fret = 0 then 0
                        else pos_baseFret position + fret - 1)
             (pos_frets position))"

fun maxOf :: "int list \<Rightarrow> int option" where
  \<comment> \<open>\<open>Math.max(...xs)\<close>; \<open>None\<close> stands for \<open>-Infinity\<close>, the answer on no arguments.\<close>
  "maxOf [] = None"
| "maxOf (x # xs) = (case maxOf xs of None \<Rightarrow> Some x | Some m \<Rightarrow> Some (max x m))"

fun minOf :: "int list \<Rightarrow> int option" where
  \<comment> \<open>\<open>Math.min(...xs)\<close>; \<open>None\<close> stands for \<open>Infinity\<close>, the answer on no arguments.\<close>
  "minOf [] = None"
| "minOf (x # xs) = (case minOf xs of None \<Rightarrow> Some x | Some m \<Rightarrow> Some (min x m))"

definition filterVoicingsByPosition ::
  "ChordPosition list \<Rightarrow> int \<Rightarrow> int \<Rightarrow> ChordPosition list" where
  "filterVoicingsByPosition voicings minFret maxFret =
     filter (\<lambda>v. let activeFrets = filter (\<lambda>f. f > 0) (pos_frets v)
                  in case maxOf activeFrets of
                       None \<Rightarrow> True
                     | Some maxFretInVoicing \<Rightarrow>
                         maxFretInVoicing \<ge> minFret \<and> maxFretInVoicing \<le> maxFret)
       voicings"

definition compareDifficulty :: "ChordPosition \<Rightarrow> ChordPosition \<Rightarrow> int" where
  \<comment> \<open>The comparator handed to \<open>sort\<close> in \<open>sortByDifficulty\<close>.\<close>
  "compareDifficulty a b =
     (let aHasOpen = list_ex (\<lambda>f. f = 0) (pos_frets a);
          bHasOpen = list_ex (\<lambda>f. f = 0) (pos_frets b)
      in if aHasOpen \<and> \<not> bHasOpen then -1
         else if \<not> aHasOpen \<and> bHasOpen then 1
         else if length (pos_barres a) \<noteq> length (pos_barres b)
              then int (length (pos_barres a)) - int (length (pos_barres b))
         else pos_baseFret a - pos_baseFret b)"

fun insertBy :: "('a \<Rightarrow> 'a \<Rightarrow> int) \<Rightarrow> 'a \<Rightarrow> 'a list \<Rightarrow> 'a list" where
  "insertBy cmp x [] = [x]"
| "insertBy cmp x (y # ys) = (if cmp x y < 0 then x # y # ys else y # insertBy cmp x ys)"

definition stableSortBy :: "('a \<Rightarrow> 'a \<Rightarrow> int) \<Rightarrow> 'a list \<Rightarrow> 'a list" where
  \<comment> \<open>\<open>Array.prototype.sort\<close> with a comparator: stable, so each element goes behind
      the earlier elements that do not compare greater.\<close>
  "stableSortBy cmp xs = fold (insertBy cmp) xs []"

definition sortByDifficulty :: "ChordPosition list \<Rightarrow> ChordPosition list" where
  "sortByDifficulty voicings = stableSortBy compareDifficulty voicings"

subsection \<open>The enhanced assembler (cagedSystemEnhanced.ts)\<close>

datatype difficulty = Beginner | Intermediate | Advanced

record EnhancedChordVoicing =
  v_name :: string
  v_frets :: "int list"
  v_baseFret :: int
  v_fingers :: "int list"
  v_position :: int
  v_cagedShape :: shape
  v_difficulty :: difficulty
  v_barrePositions :: "int list"
  v_midi :: "int list"
  v_validated :: bool
  v_theoreticalNotes :: "int list"

definition absoluteFretsOf :: "int list \<Rightarrow> int \<Rightarrow> int list" where
  \<comment> \<open>The first statement of \<open>determineCAGEDShape\<close>.\<close>
  "absoluteFretsOf frets baseFret =
     (if baseFret > 1
      then map (\<lambda>f. if f = -1 then -1 else (if f = 0 then 0 else baseFret + f - 1)) frets
      else frets)"

definition optGe :: "int option \<Rightarrow> int \<Rightarrow> bool" where
  \<comment> \<open>\<open>x >= n\<close>, false on \<open>undefined\<close>.\<close>
  "optGe x n = (case x of Some a \<Rightarrow> a \<ge> n | None \<Rightarrow> False)"

definition optGt :: "int option \<Rightarrow> int \<Rightarrow> bool" where
  \<comment> \<open>\<open>x > n\<close>, false on \<open>undefined\<close>.\<close>
  "optGt x n = (case x of Some a \<Rightarrow> a > n | None \<Rightarrow> False)"

definition optLess :: "int option \<Rightarrow> int option \<Rightarrow> bool" where
  \<comment> \<open>\<open>x < y\<close>, false when either side is \<open>undefined\<close>.\<close>
  "optLess x y = (case (x, y) of (Some a, Some b) \<Rightarrow> a < b | _ \<Rightarrow> False)"

definition determineCAGEDShape :: "int list \<Rightarrow> int \<Rightarrow> shape" where
  "determineCAGEDShape frets baseFret =
     (let absoluteFrets = absoluteFretsOf frets baseFret;
          playedStrings = filter (\<lambda>(idx, fret). fret \<ge> 0) (enumerate 0 absoluteFrets)
      in if playedStrings = [] then ShE
         else
          (let lowestString = fst (hd playedStrings);
               highestString = fst (last playedStrings);
               hasOpenStrings = list_ex (\<lambda>f. f = 0) absoluteFrets;
               stringCount = length playedStrings
           in if nthOpt absoluteFrets 0 = Some (-1) \<and> nthOpt absoluteFrets 1 = Some (-1)
                 \<and> optGe (nthOpt absoluteFrets 2) 0
              then ShD
              else if lowestString = 0 \<and> stringCount \<ge> 4
              then (if stringCount = 6 \<and> hasOpenStrings \<and> optGt (nthOpt absoluteFrets 5) 0
                    then ShG else ShE)
              else if lowestString = 1
              then (if nthOpt absoluteFrets 0 = Some (-1) \<and> hasOpenStrings
                       \<and> optLess (nthOpt absoluteFrets 2) (nthOpt absoluteFrets 1)
                    then ShC else ShA)
              else if stringCount \<ge> 5 \<and> lowestString = 0 \<and> highestString = 5
              then ShG
              else if nthOpt absoluteFrets 0 = Some (-1) \<and> optGt (nthOpt absoluteFrets 1) 0
              then (if hasOpenStrings then ShC else ShA)
              else if lowestString = 0 then ShE
              else if lowestString = 1 then ShA
              else if lowestString = 2 then ShD
              else ShE))"

definition calculateDifficulty :: "ChordPosition \<Rightarrow> int \<Rightarrow> difficulty" where
  "calculateDifficulty position baseFret =
     (let hasBarres = length (pos_barres position) > 0;
          hasOpenStrings = list_ex (\<lambda>f. f = 0) (pos_frets position)
      in if baseFret > 12 \<or> length (pos_barres position) > 1 then Advanced
         else if hasOpenStrings \<and> \<not> hasBarres then Beginner
         else Intermediate)"

definition absoluteFretsToChordPosition :: "int list \<Rightarrow> shape \<Rightarrow> quality \<Rightarrow> ChordPosition" where
  \<comment> \<open>The keys of the \<open>Map\<close> of fret counts come out in the order of their first insertion.\<close>
  "absoluteFretsToChordPosition absoluteFrets shp qual =
     (let playedFrets = filter (\<lambda>f. f > 0) absoluteFrets;
          baseFret = (case minOf playedFrets of None \<Rightarrow> 1 | Some m \<Rightarrow> m);
          relativeFrets = map (\<lambda>fret. if fret = -1 then -1
                                       else if fret = 0 then 0
                                       else if baseFret = 1 then fret
                                       else fret - baseFret + 1) absoluteFrets;
          counted = filter (\<lambda>fret. fret > 0) relativeFrets;
          fretCounts = map (\<lambda>fret. (fret, int (length (filter (\<lambda>g. g = fret) counted))))
                         (rev (remdups (rev counted)));
          barres = map (\<lambda>(fret, count). if baseFret = 1 then fret else baseFret + fret - 1)
                     (filter (\<lambda>(fret, count). count \<ge> 2) fretCounts);
          template = CAGED_SHAPES shp qual
      in \<lparr>pos_frets = relativeFrets, pos_fingers = tmpl_fingers template, pos_barres = barres,
          pos_baseFret = baseFret, pos_midi = []\<rparr>)"

record voicingOptions =
  maxVoicings :: int
  minFret :: int
  maxFret :: int
  onlyValidated :: bool

definition defaultOptions :: voicingOptions where
  "defaultOptions = \<lparr>maxVoicings = 10, minFret = 0, maxFret = 15, onlyValidated = True\<rparr>"

definition allShapes :: "shape list" where
  "allShapes = [ShC, ShA, ShG, ShE, ShD]"

definition generateMissingShape ::
  "chordOracle \<Rightarrow> string \<Rightarrow> quality \<Rightarrow> int \<Rightarrow> int \<Rightarrow> shape \<Rightarrow> ChordPosition list" where
  \<comment> \<open>The body of the loop over the missing shapes: what it pushes onto \<open>dbVoicings\<close>.
      The exception of the transposer is caught and nothing is pushed.\<close>
  "generateMissingShape Chord_get root qualityMapped lo hi shp =
     (case transposeShape Chord_get root shp qualityMapped True of
        Inl e \<Rightarrow> []
      | Inr absoluteFrets \<Rightarrow>
          (if list_ex (\<lambda>fret. fret < -1) absoluteFrets then []
           else let chordPosition = absoluteFretsToChordPosition absoluteFrets shp qualityMapped
                in if list_ex (\<lambda>fret. fret < -1) (pos_frets chordPosition) then []
                   else if pos_baseFret chordPosition \<ge> lo \<and> pos_baseFret chordPosition \<le> hi
                        then [chordPosition] else []))"

definition mapQuality :: "string \<Rightarrow> quality option" where
  \<comment> \<open>\<open>qualityMapped\<close>; \<open>None\<close> stands for \<open>null\<close>.\<close>
  "mapQuality qual =
     (if qual = '''' \<or> qual = ''major'' then Some Major
      else if qual = ''m'' \<or> qual = ''minor'' then Some Minor
      else None)"

definition enhance :: "string \<Rightarrow> string \<Rightarrow> int list \<Rightarrow> ChordPosition \<Rightarrow> EnhancedChordVoicing" where
  \<comment> \<open>The callback that turns a position into an enhanced voicing.\<close>
  "enhance root qual theoreticalNotes pos =
     (let absoluteFrets = toAbsoluteFrets pos;
          cagedShape = determineCAGEDShape (pos_frets pos) (pos_baseFret pos);
          difficulty = calculateDifficulty pos (pos_baseFret pos);
          isValid = validateChordVoicing absoluteFrets theoreticalNotes STANDARD_TUNING
      in \<lparr>v_name = root @ qual @ '' ('' @ shapeName cagedShape @ '' Shape)'',
          v_frets = pos_frets pos, v_baseFret = pos_baseFret pos, v_fingers = pos_fingers pos,
          v_position = pos_baseFret pos, v_cagedShape = cagedShape, v_difficulty = difficulty,
          v_barrePositions = pos_barres pos, v_midi = pos_midi pos, v_validated = isValid,
          v_theoreticalNotes = theoreticalNotes\<rparr>)"

definition getValidatedCAGEDVoicings ::
  "chordOracle \<Rightarrow> chordTable \<Rightarrow> string \<Rightarrow> string \<Rightarrow> voicingOptions \<Rightarrow> EnhancedChordVoicing list" where
  "getValidatedCAGEDVoicings Chord_get chords root qual options =
     (let theoreticalNotes = getChordNotes Chord_get root qual
      in if theoreticalNotes = [] then []
         else
          (let dbVoicings0 = getChordVoicingsFromDB chords root qual
           in if dbVoicings0 = [] then []
              else
               (let dbVoicings1 = filterVoicingsByPosition dbVoicings0
                                    (minFret options) (maxFret options);
                    dbVoicings2 = sortByDifficulty dbVoicings1;
                    dbVoicings =
                      (case mapQuality qual of
                         None \<Rightarrow> dbVoicings2
                       | Some qualityMapped \<Rightarrow>
                           (let presentShapes =
                                  map (\<lambda>voicing. determineCAGEDShape (pos_frets voicing)
                                                    (pos_baseFret voicing)) dbVoicings2
                            in dbVoicings2 @
                               concat (map (\<lambda>shp. if shp \<in> set presentShapes then []
                                                   else generateMissingShape Chord_get root
                                                          qualityMapped (minFret options)
                                                          (maxFret options) shp)
                                         allShapes)));
                    enhancedVoicings = map (enhance root qual theoreticalNotes) dbVoicings;
                    filteredVoicings = (if onlyValidated options
                                        then filter v_validated enhancedVoicings
                                        else enhancedVoicings)
                in slice0 filteredVoicings (maxVoicings options))))"

subsection \<open>The first generator (cagedSystem.ts)\<close>

record ChordVoicing =
  cv_name :: string
  cv_frets :: "int list"
  cv_position :: int
  cv_cagedShape :: shape
  cv_difficulty :: difficulty
  cv_barrePositions :: "int list option"

definition noteNames :: "string list" where
  "noteNames =
     [''C'', ''C#'', ''D'', ''D#'', ''E'', ''F'', ''F#'', ''G'', ''G#'', ''A'', ''A#'', ''B'']"

definition getNoteIndex :: "string \<Rightarrow> int" where
  "getNoteIndex note = (let normalizedNote = lookupOr flatToSharp note note
                        in indexOf noteNames normalizedNote)"

record baseShape =
  bs_frets :: "int list"
  bs_rootString :: int
  bs_rootFret :: int
  bs_movable :: bool

fun baseMajorShapes :: "shape \<Rightarrow> baseShape" where
  "baseMajorShapes ShC =
     \<lparr>bs_frets = [-1, 3, 2, 0, 1, 0], bs_rootString = 5, bs_rootFret = 3, bs_movable = False\<rparr>"
| "baseMajorShapes ShA =
     \<lparr>bs_frets = [-1, 0, 2, 2, 2, 0], bs_rootString = 5, bs_rootFret = 0, bs_movable = True\<rparr>"
| "baseMajorShapes ShG =
     \<lparr>bs_frets = [3, 2, 0, 0, 0, 3], bs_rootString = 6, bs_rootFret = 3, bs_movable = True\<rparr>"
| "baseMajorShapes ShE =
     \<lparr>bs_frets = [0, 2, 2, 1, 0, 0], bs_rootString = 6, bs_rootFret = 0, bs_movable = True\<rparr>"
| "baseMajorShapes ShD =
     \<lparr>bs_frets = [-1, -1, 0, 2, 3, 2], bs_rootString = 4, bs_rootFret = 0, bs_movable = True\<rparr>"

fun baseMinorShapes :: "shape \<Rightarrow> baseShape" where
  "baseMinorShapes ShA =
     \<lparr>bs_frets = [-1, 0, 2, 2, 1, 0], bs_rootString = 5, bs_rootFret = 0, bs_movable = True\<rparr>"
| "baseMinorShapes ShG =
     \<lparr>bs_frets = [3, 1, 0, 0, 3, 3], bs_rootString = 6, bs_rootFret = 3, bs_movable = True\<rparr>"
| "baseMinorShapes ShE =
     \<lparr>bs_frets = [0, 2, 2, 0, 0, 0], bs_rootString = 6, bs_rootFret = 0, bs_movable = True\<rparr>"
| "baseMinorShapes ShD =
     \<lparr>bs_frets = [-1, -1, 0, 2, 3, 1], bs_rootString = 4, bs_rootFret = 0, bs_movable = True\<rparr>"
| "baseMinorShapes ShC =
     \<lparr>bs_frets = [-1, 3, 1, 0, 1, 3], bs_rootString = 5, bs_rootFret = 3, bs_movable = True\<rparr>"

fun baseMaj7Shapes :: "shape \<Rightarrow> baseShape" where
  "baseMaj7Shapes ShC =
     \<lparr>bs_frets = [-1, 3, 2, 0, 0, 0], bs_rootString = 5, bs_rootFret = 3, bs_movable = True\<rparr>"
| "baseMaj7Shapes ShA =
     \<lparr>bs_frets = [-1, 0, 2, 1, 2, 0], bs_rootString = 5, bs_rootFret = 0, bs_movable = True\<rparr>"
| "baseMaj7Shapes ShG =
     \<lparr>bs_frets = [3, 2, 0, 0, 0, 2], bs_rootString = 6, bs_rootFret = 3, bs_movable = True\<rparr>"
| "baseMaj7Shapes ShE =
     \<lparr>bs_frets = [0, 2, 1, 1, 0, 0], bs_rootString = 6, bs_rootFret = 0, bs_movable = True\<rparr>"
| "baseMaj7Shapes ShD =
     \<lparr>bs_frets = [-1, -1, 0, 2, 2, 2], bs_rootString = 4, bs_rootFret = 0, bs_movable = True\<rparr>"

fun baseMin7Shapes :: "shape \<Rightarrow> baseShape" where
  "baseMin7Shapes ShA =
     \<lparr>bs_frets = [-1, 0, 2, 0, 1, 0], bs_rootString = 5, bs_rootFret = 0, bs_movable = True\<rparr>"
| "baseMin7Shapes ShG =
     \<lparr>bs_frets = [3, 5, 3, 3, 3, 3], bs_rootString = 6, bs_rootFret = 3, bs_movable = True\<rparr>"
| "baseMin7Shapes ShE =
     \<lparr>bs_frets = [0, 2, 0, 0, 0, 0], bs_rootString = 6, bs_rootFret = 0, bs_movable = True\<rparr>"
| "baseMin7Shapes ShD =
     \<lparr>bs_frets = [-1, -1, 0, 2, 1, 1], bs_rootString = 4, bs_rootFret = 0, bs_movable = True\<rparr>"
| "baseMin7Shapes ShC =
     \<lparr>bs_frets = [-1, 3, 1, 3, 4, 3], bs_rootString = 5, bs_rootFret = 3, bs_movable = True\<rparr>"

fun baseDom7Shapes :: "shape \<Rightarrow> baseShape" where
  "baseDom7Shapes ShC =
     \<lparr>bs_frets = [-1, 3, 2, 3, 1, 0], bs_rootString = 5, bs_rootFret = 3, bs_movable = True\<rparr>"
| "baseDom7Shapes ShA =
     \<lparr>bs_frets = [-1, 0, 2, 0, 2, 0], bs_rootString = 5, bs_rootFret = 0, bs_movable = True\<rparr>"
| "baseDom7Shapes ShG =
     \<lparr>bs_frets = [3, 2, 0, 0, 0, 1], bs_rootString = 6, bs_rootFret = 3, bs_movable = True\<rparr>"
| "baseDom7Shapes ShE =
     \<lparr>bs_frets = [0, 2, 0, 1, 0, 0], bs_rootString = 6, bs_rootFret = 0, bs_movable = True\<rparr>"
| "baseDom7Shapes ShD =
     \<lparr>bs_frets = [-1, -1, 0, 2, 1, 2], bs_rootString = 4, bs_rootFret = 0, bs_movable = True\<rparr>"

fun baseSus2Shapes :: "shape \<Rightarrow> baseShape" where
  "baseSus2Shapes ShC =
     \<lparr>bs_frets = [-1, 3, 0, 0, 3, 3], bs_rootString = 5, bs_rootFret = 3, bs_movable = True\<rparr>"
| "baseSus2Shapes ShA =
     \<lparr>bs_frets = [-1, 0, 2, 2, 0, 0], bs_rootString = 5, bs_rootFret = 0, bs_movable = True\<rparr>"
| "baseSus2Shapes ShG =
     \<lparr>bs_frets = [3, 0, 0, 0, 3, 3], bs_rootString = 6, bs_rootFret = 3, bs_movable = True\<rparr>"
| "baseSus2Shapes ShE =
     \<lparr>bs_frets = [0, 2, 4, 4, 0, 0], bs_rootString = 6, bs_rootFret = 0, bs_movable = True\<rparr>"
| "baseSus2Shapes ShD =
     \<lparr>bs_frets = [-1, -1, 0, 2, 3, 0], bs_rootString = 4, bs_rootFret = 0, bs_movable = True\<rparr>"

fun baseSus4Shapes :: "shape \<Rightarrow> baseShape" where
  "baseSus4Shapes ShC =
     \<lparr>bs_frets = [-1, 3, 3, 0, 1, 1], bs_rootString = 5, bs_rootFret = 3, bs_movable = True\<rparr>"
| "baseSus4Shapes ShA =
     \<lparr>bs_frets = [-1, 0, 2, 2, 3, 0], bs_rootString = 5, bs_rootFret = 0, bs_movable = True\<rparr>"
| "baseSus4Shapes ShG =
     \<lparr>bs_frets = [3, 3, 0, 0, 1, 3], bs_rootString = 6, bs_rootFret = 3, bs_movable = True\<rparr>"
| "baseSus4Shapes ShE =
     \<lparr>bs_frets = [0, 2, 2, 2, 0, 0], bs_rootString = 6, bs_rootFret = 0, bs_movable = True\<rparr>"
| "baseSus4Shapes ShD =
     \<lparr>bs_frets = [-1, -1, 0, 2, 3, 3], bs_rootString = 4, bs_rootFret = 0, bs_movable = True\<rparr>"

definition cagedOrderMajor :: "shape list" where
  "cagedOrderMajor = [ShC, ShA, ShG, ShE, ShD]"

definition cagedOrderMinor :: "shape list" where
  "cagedOrderMinor = [ShA, ShG, ShE, ShD, ShC]"

record transposedShape =
  ts_frets :: "int list"
  ts_position :: int
  ts_barrePositions :: "int list option"

definition transposeBaseShape :: "int list \<Rightarrow> int \<Rightarrow> int \<Rightarrow> int \<Rightarrow> transposedShape" where
  \<comment> \<open>The module-local \<open>transposeShape\<close> of cagedSystem.ts, renamed apart from the
      exported transposer of cagedShapes.ts.\<close>
  "transposeBaseShape baseShape semitones rootString rootFret =
     (let hasOpenStrings = list_ex (\<lambda>f. f = 0) baseShape;
          (newFrets, barrePositions) =
            (if hasOpenStrings \<and> semitones > 0
             then (let lowest = minOf (filter (\<lambda>f. f \<ge> 0) baseShape)
                   in (map (\<lambda>f. if f \<ge> 0 then f + semitones else f) baseShape,
                       if lowest = Some 0 then [semitones] else []))
             else (map (\<lambda>f. if f > 0 then f + semitones else f) baseShape, []));
          position = rootFret + semitones
      in \<lparr>ts_frets = newFrets, ts_position = position,
          ts_barrePositions = (if length barrePositions > 0 then Some barrePositions else None)\<rparr>)"

fun showNat :: "nat \<Rightarrow> string" where
  "showNat n = (if n < 10 then [char_of (48 + n)]
                else showNat (n div 10) @ [char_of (48 + n mod 10)])"

definition showInt :: "int \<Rightarrow> string" where
  \<comment> \<open>The decimal text of an integer inside a template literal.\<close>
  "showInt i = (if i < 0 then ''-'' @ showNat (nat (- i)) else showNat (nat i))"

definition selectShapes :: "string \<Rightarrow> (shape \<Rightarrow> baseShape) \<times> shape list" where
  \<comment> \<open>The choice of \<open>baseShapes\<close> and \<open>cagedOrder\<close> by chord quality.\<close>
  "selectShapes qual =
     (if qual = ''maj7'' then (baseMaj7Shapes, cagedOrderMajor)
      else if qual = ''m7'' \<or> qual = ''min7'' then (baseMin7Shapes, cagedOrderMinor)
      else if qual = ''7'' then (baseDom7Shapes, cagedOrderMajor)
      else if qual = ''sus2'' then (baseSus2Shapes, cagedOrderMajor)
      else if qual = ''sus4'' then (baseSus4Shapes, cagedOrderMajor)
      else (let isMinor = (qual = ''m'' \<or> qual = ''min'' \<or> qual = ''minor'')
            in (if isMinor then baseMinorShapes else baseMajorShapes,
                if isMinor then cagedOrderMinor else cagedOrderMajor)))"

definition shapeVoicing :: "(shape \<Rightarrow> baseShape) \<Rightarrow> int \<Rightarrow> shape \<Rightarrow> ChordVoicing option" where
  \<comment> \<open>One pass of the loop over \<open>cagedOrder\<close>: the voicing pushed, or \<open>None\<close> when the
      pass is skipped by \<open>continue\<close>.\<close>
  "shapeVoicing baseShapes rootIndex shp =
     (let base = baseShapes shp;
          baseNoteIndex = getNoteIndex (shapeName shp);
          semitones = jsRem (rootIndex - baseNoteIndex + 12) 12;
          t = transposeBaseShape (bs_frets base) semitones (bs_rootString base) (bs_rootFret base);
          highest = maxOf (filter (\<lambda>f. f > 0) (ts_frets t))
      in if optGt highest 15 then None
         else
          (let difficulty =
                 (case ts_barrePositions t of
                    Some (b # bs) \<Rightarrow> (if b > 5 then Advanced else Intermediate)
                  | _ \<Rightarrow> (if ts_position t > 7 then Intermediate else Beginner));
               positionName = (if ts_position t = 0 then ''Open''
                               else showInt (ts_position t) @ ''th Position'');
               voicingName = shapeName shp @ '' Shape ('' @ positionName @ '')''
           in Some \<lparr>cv_name = voicingName, cv_frets = ts_frets t, cv_position = ts_position t,
                    cv_cagedShape = shp, cv_difficulty = difficulty,
                    cv_barrePositions = ts_barrePositions t\<rparr>))"

fun voicingLoop ::
  "(shape \<Rightarrow> baseShape) \<Rightarrow> int \<Rightarrow> shape list \<Rightarrow> ChordVoicing list \<Rightarrow> ChordVoicing list" where
  "voicingLoop baseShapes rootIndex [] voicings = voicings"
| "voicingLoop baseShapes rootIndex (shp # rest) voicings =
     (case shapeVoicing baseShapes rootIndex shp of
        None \<Rightarrow> voicingLoop baseShapes rootIndex rest voicings
      | Some v \<Rightarrow>
          (let voicings' = voicings @ [v]
           in if length voicings' \<ge> 5 then voicings'
              else voicingLoop baseShapes rootIndex rest voicings'))"

definition generateCAGEDVoicings :: "string \<Rightarrow> string \<Rightarrow> error + ChordVoicing list" where
  "generateCAGEDVoicings rootNote qual =
     (let rootIndex = getNoteIndex rootNote
      in if rootIndex = -1 then Inl (InvalidNote rootNote)
         else (let (baseShapes, cagedOrder) = selectShapes qual
               in Inr (voicingLoop baseShapes rootIndex cagedOrder [])))"

definition getChordShape :: "string \<Rightarrow> string \<Rightarrow> int list" where
  "getChordShape rootNote qual =
     (case generateCAGEDVoicings rootNote qual of
        Inl e \<Rightarrow> [0, 0, 0, 0, 0, 0]
      | Inr voicings \<Rightarrow>
          (case voicings of [] \<Rightarrow> [0, 0, 0, 0, 0, 0] | v # _ \<Rightarrow> cv_frets v))"

subsection \<open>Sample collaborators\<close>

text \<open>
  Concrete stand-ins for the two parameters, used where a statement is evaluated on an
  input. \<open>triadChords\<close> knows the major and minor triads on the note names of the
  tables, under the names \<open>Chord.get\<close> is asked for (\<open>C\<close>, \<open>Cm\<close>, \<open>F#m\<close>, ...): root,
  third and fifth as chromas, as the documentation of \<open>getChordNotes\<close> shows them
  (\<open>getChordNotes('C', 'major') => ['C', 'E', 'G']\<close>); any other chord is empty.
  \<open>sampleChords\<close> holds three chords-db style entries: the open C major, the C major
  barre at the eighth fret, and the F sharp minor barre at the second fret.
  \<open>looseChords\<close> lists the fingering x02010 under A minor: it sounds A, C and E and,
  on the open G string, a G as well.
\<close>

definition triadChords :: chordOracle where
  "triadChords chordName =
     (case map_of
             (concat (map (\<lambda>(n, i). [(n, [i, (i + 4) mod 12, (i + 7) mod 12]),
                                        (n @ ''m'', [i, (i + 3) mod 12, (i + 7) mod 12])])
                [(''C'', 0), (''C#'', 1), (''Db'', 1), (''D'', 2), (''D#'', 3), (''Eb'', 3),
                 (''E'', 4), (''F'', 5), (''F#'', 6), (''Gb'', 6), (''G'', 7), (''G#'', 8),
                 (''Ab'', 8), (''A'', 9), (''A#'', 10), (''Bb'', 10), (''B'', 11)]))
             chordName of
        Some ns \<Rightarrow> \<lparr>chord_empty = False, chord_notes = ns\<rparr>
      | None \<Rightarrow> \<lparr>chord_empty = True, chord_notes = []\<rparr>)"

definition sampleChords :: chordTable where
  "sampleChords keyName =
     (if keyName = ''C'' then
        Some [\<lparr>cd_key = ''C'', cd_suffix = ''major'', cd_positions =
                [\<lparr>pos_frets = [-1, 3, 2, 0, 1, 0], pos_fingers = [0, 3, 2, 0, 1, 0],
                  pos_barres = [], pos_baseFret = 1, pos_midi = [48, 52, 55, 60, 64]\<rparr>,
                 \<lparr>pos_frets = [1, 3, 3, 2, 1, 1], pos_fingers = [1, 3, 4, 2, 1, 1],
                  pos_barres = [1], pos_baseFret = 8, pos_midi = [48, 55, 60, 64, 67, 72]\<rparr>]\<rparr>]
      else if keyName = ''Fsharp'' then
        Some [\<lparr>cd_key = ''F#'', cd_suffix = ''minor'', cd_positions =
                [\<lparr>pos_frets = [1, 3, 3, 1, 1, 1], pos_fingers = [1, 3, 4, 1, 1, 1],
                  pos_barres = [1], pos_baseFret = 2, pos_midi = [42, 49, 54, 57, 61, 66]\<rparr>]\<rparr>]
      else None)"

definition looseChords :: chordTable where
  "looseChords keyName =
     (if keyName = ''A'' then
        Some [\<lparr>cd_key = ''A'', cd_suffix = ''minor'', cd_positions =
                [\<lparr>pos_frets = [-1, 0, 2, 0, 1, 0], pos_fingers = [0, 0, 2, 0, 1, 0],
                  pos_barres = [], pos_baseFret = 1, pos_midi = [45, 52, 55, 60, 64]\<rparr>]\<rparr>]
      else None)"

subsection \<open>Notions of the specification\<close>

text \<open>
  The specification's own note arithmetic, written from its words: the pitch class of a
  note name (flats normalised to sharps, then the index in the twelve-tone table), the
  pitch classes of the six open strings in standard tuning E A D G B E, the pitch class
  sounding at a fret, the fret of a pitch class within the first octave, and the
  transposition algorithm without its validation pass.
\<close>

definition pitchClassOf :: "string \<Rightarrow> int option" where
  "pitchClassOf noteName =
     map_of [(''C'', 0), (''C#'', 1), (''D'', 2), (''D#'', 3), (''E'', 4), (''F'', 5),
             (''F#'', 6), (''G'', 7), (''G#'', 8), (''A'', 9), (''A#'', 10), (''B'', 11)]
       (normalizeNoteName noteName)"

definition tuningPitchClass :: "int list" where
  "tuningPitchClass = [4, 9, 2, 7, 11, 4]"

definition fretPitchClass :: "nat \<Rightarrow> int \<Rightarrow> int" where
  "fretPitchClass stringIndex fret = (tuningPitchClass ! stringIndex + fret) mod 12"

definition findFretForPitchClass :: "int \<Rightarrow> nat \<Rightarrow> int" where
  "findFretForPitchClass targetPitchClass stringIndex =
     (targetPitchClass - tuningPitchClass ! stringIndex + 12) mod 12"

definition transposeBySpec :: "string \<Rightarrow> shape \<Rightarrow> quality \<Rightarrow> int list option" where
  "transposeBySpec root shp qual =
     (case pitchClassOf root of
        None \<Rightarrow> None
      | Some pc \<Rightarrow>
          (let template = CAGED_SHAPES shp qual;
               targetRootFret = findFretForPitchClass pc (tmpl_rootString template);
               offset = targetRootFret - tmpl_rootFret template
           in Some (map (\<lambda>v. if v = -1 then -1 else v + offset) (tmpl_frets template))))"

definition sixFretsInRange :: "int list \<Rightarrow> bool" where
  \<comment> \<open>The fret values of a voicing in the data model: six of them, each from -1 to 24.\<close>
  "sixFretsInRange frets = (length frets = 6 \<and> list_all (\<lambda>f. -1 \<le> f \<and> f \<le> 24) frets)"

definition soundingPitchClasses :: "int list \<Rightarrow> int list" where
  \<comment> \<open>The pitch classes sounding on the non-muted strings of an absolute fret pattern.\<close>
  "soundingPitchClasses frets =
     map (\<lambda>(stringIndex, fret). fretPitchClass stringIndex fret)
       (filter (\<lambda>(stringIndex, fret). fret \<noteq> -1) (enumerate 0 (take 6 frets)))"

definition baseFretOf :: "int list \<Rightarrow> int" where
  \<comment> \<open>The base fret that \<open>absoluteFretsToChordPosition\<close> computes.\<close>
  "baseFretOf fr = (case minOf (filter (\<lambda>f. f > 0) fr) of None \<Rightarrow> 1 | Some m \<Rightarrow> m)"

definition assembledPositions ::
  "chordOracle \<Rightarrow> chordTable \<Rightarrow> string \<Rightarrow> string \<Rightarrow> voicingOptions \<Rightarrow> ChordPosition list" where
  \<comment> \<open>The positions the assembler works on once both early returns are passed: the
      library voicings, filtered and sorted, followed by the generated ones.\<close>
  "assembledPositions cg chords root qual options =
     (let db = sortByDifficulty (filterVoicingsByPosition (getChordVoicingsFromDB chords root qual)
                                    (minFret options) (maxFret options))
      in case mapQuality qual of
           None \<Rightarrow> db
         | Some qualityMapped \<Rightarrow>
             db @ concat (map (\<lambda>shp. if shp \<in> set (map (\<lambda>voicing. determineCAGEDShape (pos_frets voicing)
                                                    (pos_baseFret voicing)) db) then []
                                     else generateMissingShape cg root qualityMapped (minFret options)
                                            (maxFret options) shp)
                           allShapes))"

section \<open>Properties\<close>

subsection \<open>Note arithmetic and the transposer\<close>

lemma jsRem_nonneg: "0 \<le> a \<Longrightarrow> jsRem a 12 = a mod 12"
  by (cases "a = 0") (simp_all add: jsRem_def)

lemma indexFrom_map_of:
  "indexFrom n xs x = (case map_of (zip xs (map int [n..<n + length xs])) x of Some i \<Rightarrow> i | None \<Rightarrow> -1)"
proof (induction xs arbitrary: n)
  case Nil
  then show ?case by simp
next
  case (Cons y ys)
  have "[n..<n + length (y # ys)] = n # [Suc n..<Suc n + length ys]"
    using upt_conv_Cons [of n "n + Suc (length ys)"] by simp
  then show ?case using Cons.IH [of "Suc n"] by simp
qed

lemma indexOf_chromatic_pitchClassOf:
  "indexOf chromatic (normalizeNoteName root) = (case pitchClassOf root of Some pc \<Rightarrow> pc | None \<Rightarrow> -1)"
proof -
  have "zip chromatic (map int [0..<0 + length chromatic]) = [(''C'', 0), (''C#'', 1), (''D'', 2), (''D#'', 3), 
             (''E'', 4), (''F'', 5), (''F#'', 6), (''G'', 7), (''G#'', 8),
             (''A'', 9), (''A#'', 10), (''B'', 11)]"
    by (simp add: chromatic_def upt_conv_Cons)
  then show ?thesis
    unfolding indexOf_def pitchClassOf_def indexFrom_map_of by simp
qed

lemma pitchClassOf_range: "pitchClassOf root = Some pc \<Longrightarrow> 0 \<le> pc \<and> pc \<le> 11"
proof -
  assume "pitchClassOf root = Some pc"
  then have "(normalizeNoteName root, pc) \<in> set [(''C'', 0), (''C#'', 1), (''D'', 2), (''D#'', 3), 
             (''E'', 4), (''F'', 5), (''F#'', 6), (''G'', 7), (''G#'', 8),
             (''A'', 9), (''A#'', 10), (''B'', 11)]"
    unfolding pitchClassOf_def by (rule map_of_SomeD)
  then show ?thesis by auto
qed

lemma tuning_vals: "map (indexOf chromatic) stringTuning = tuningPitchClass"
  by (simp add: stringTuning_def indexOf_def chromatic_def tuningPitchClass_def)

lemma tuning_len: "length stringTuning = 6"
  by (simp add: stringTuning_def)

lemma tuningPitchClass_len: "length tuningPitchClass = 6"
  by (simp add: tuningPitchClass_def)

lemma tuning_index: "i < 6 \<Longrightarrow> nthOpt stringTuning i = Some (stringTuning ! i) \<and> indexOf chromatic (stringTuning ! i) = tuningPitchClass ! i"
  using nth_map [of i stringTuning "indexOf chromatic"]
  by (simp add: tuning_vals tuning_len nthOpt_def)

lemma tuningPitchClass_range: "i < 6 \<Longrightarrow> 0 \<le> tuningPitchClass ! i \<and> tuningPitchClass ! i \<le> 11"
proof -
  assume "i < 6"
  then have "i < length tuningPitchClass" by (simp add: tuningPitchClass_len)
  then have m: "tuningPitchClass ! i \<in> set tuningPitchClass" by (rule nth_mem)
  have "\<forall>x\<in>set tuningPitchClass. 0 \<le> x \<and> x \<le> 11" by (simp add: tuningPitchClass_def)
  with m show ?thesis by blast
qed

lemma getNoteOnString_spec:
  assumes "pitchClassOf root = Some pc" and "i < 6"
  shows "getNoteOnString root i = Inr (findFretForPitchClass pc i)"
proof -
  have r: "0 \<le> pc \<and> pc \<le> 11" using assms(1) by (rule pitchClassOf_range)
  have t: "0 \<le> tuningPitchClass ! i \<and> tuningPitchClass ! i \<le> 11"
    using assms(2) by (rule tuningPitchClass_range)
  have ne: "tuningPitchClass ! i \<noteq> -1" "pc \<noteq> -1" using r t by auto
  have nn: "0 \<le> pc - tuningPitchClass ! i + 12" using r t by arith
  show ?thesis
    using tuning_index [OF assms(2)] ne
    by (simp add: getNoteOnString_def indexOf_chromatic_pitchClassOf assms(1) jsRem_nonneg [OF nn] findFretForPitchClass_def)
qed

lemma getNoteOnString_invalid:
  "pitchClassOf root = None \<Longrightarrow> getNoteOnString root i = Inl (InvalidNote root)"
  by (simp add: getNoteOnString_def indexOf_chromatic_pitchClassOf)

lemma findFret_range: "0 \<le> findFretForPitchClass pc i \<and> findFretForPitchClass pc i \<le> 11"
  by (simp add: findFretForPitchClass_def)

lemma template_shape:
  "length (tmpl_frets (CAGED_SHAPES s q)) = 6 \<and> tmpl_rootString (CAGED_SHAPES s q) < 6
   \<and> 0 \<le> tmpl_rootFret (CAGED_SHAPES s q) \<and> tmpl_rootFret (CAGED_SHAPES s q) \<le> 3"
  by (cases s; cases q) simp_all

lemma template_frets_range:
  "\<forall>f\<in>set (tmpl_frets (CAGED_SHAPES s q)). -1 \<le> f \<and> f \<le> 3"
  by (cases s; cases q) simp_all

lemma STANDARD_TUNING_chroma:
  "map Note_chroma STANDARD_TUNING = map Some tuningPitchClass"
  by (simp add: STANDARD_TUNING_def Note_chroma_def indexOf_def chromatic_def tuningPitchClass_def normalizeNoteName_def lookupOr_def flatToSharp_def)

lemma Note_transpose_tuning:
  assumes "i < 6"
  shows "Note_transpose (nthOpt STANDARD_TUNING i) f = Some (fretPitchClass i f)"
proof -
  have l: "i < length STANDARD_TUNING" using assms by (simp add: STANDARD_TUNING_def)
  have "Note_chroma (STANDARD_TUNING ! i) = map Note_chroma STANDARD_TUNING ! i"
    using l by simp
  also have "\<dots> = Some (tuningPitchClass ! i)"
    using assms by (simp add: STANDARD_TUNING_chroma tuningPitchClass_len)
  finally show ?thesis using l
    by (simp add: Note_transpose_def nthOpt_def fretPitchClass_def)
qed

lemma single_string_notes:
  assumes "i < 6" and "f \<noteq> -1"
  shows "fretsToNotes ((replicate 6 (-1)) [i := f]) STANDARD_TUNING = [Some (fretPitchClass i f)]"
proof -
  have "i = 0 \<or> i = 1 \<or> i = 2 \<or> i = 3 \<or> i = 4 \<or> i = 5" using assms(1) by arith
  then have "filter (\<lambda>(stringIndex, fret). fret \<noteq> -1) (enumerate 0 ((replicate 6 (-1)) [i := f])) = [(i, f)]"
    using assms(2) by (elim disjE) (simp_all add: eval_nat_numeral)
  then show ?thesis
    by (simp add: fretsToNotes_def Note_transpose_tuning [OF assms(1)])
qed

lemma list_ex_eq: "list_ex (\<lambda>t. t = c) ns = (c \<in> set ns)"
  by (induction ns) auto

lemma validateString_eq:
  assumes "i < 6"
  shows "validateString ns i f = (if 0 \<le> f \<and> fretPitchClass i f \<in> set ns then f else -1)"
proof (cases "f < 0")
  case True
  then show ?thesis by (simp add: validateString_def)
next
  case False
  then have "f \<noteq> -1" by simp
  from single_string_notes [OF assms this] False show ?thesis
    by (simp add: validateString_def list_ex_eq)
qed

lemma transposeShape_unvalidated:
  assumes "pitchClassOf root = Some pc"
  shows "transposeShape cg root s q False =
           Inr (map (\<lambda>v. if v = -1 then -1
                           else v + (findFretForPitchClass pc (tmpl_rootString (CAGED_SHAPES s q))
                                     - tmpl_rootFret (CAGED_SHAPES s q)))
                  (tmpl_frets (CAGED_SHAPES s q)))"
  using getNoteOnString_spec [OF assms, of "tmpl_rootString (CAGED_SHAPES s q)"] template_shape [of s q]
  by (simp add: transposeShape_def Let_def)

lemma transposeShape_validated:
  assumes "pitchClassOf root = Some pc" and "getChordNotes cg root (qualityName q) \<noteq> []"
  shows "transposeShape cg root s q True =
           Inr (map (\<lambda>(i, f). validateString (getChordNotes cg root (qualityName q)) i f)
                  (enumerate 0 (map (\<lambda>v. if v = -1 then -1
                           else v + (findFretForPitchClass pc (tmpl_rootString (CAGED_SHAPES s q))
                                     - tmpl_rootFret (CAGED_SHAPES s q)))
                  (tmpl_frets (CAGED_SHAPES s q)))))"
  using getNoteOnString_spec [OF assms(1), of "tmpl_rootString (CAGED_SHAPES s q)"] template_shape [of s q] assms(2)
  by (simp add: transposeShape_def Let_def)

lemma accepted_root:
  "indexOf chromatic (normalizeNoteName root) \<noteq> -1 \<Longrightarrow> \<exists>pc. pitchClassOf root = Some pc"
  by (cases "pitchClassOf root") (simp_all add: indexOf_chromatic_pitchClassOf)

lemma transposeShape_validated_entries:
  assumes "pitchClassOf root = Some pc"
    and "getChordNotes cg root (qualityName q) \<noteq> []"
  shows "\<exists>fr. transposeShape cg root s q True = Inr fr \<and> length fr = 6 \<and>
           (\<forall>i<6. fr ! i = -1 \<or>
              (0 \<le> fr ! i \<and> fretPitchClass i (fr ! i) \<in> set (getChordNotes cg root (qualityName q))))"
proof -
  define off where "off = findFretForPitchClass pc (tmpl_rootString (CAGED_SHAPES s q))
                            - tmpl_rootFret (CAGED_SHAPES s q)"
  define tr where "tr = map (\<lambda>v. if v = -1 then -1 else v + off) (tmpl_frets (CAGED_SHAPES s q))"
  define fr where "fr = map (\<lambda>(i, f). validateString (getChordNotes cg root (qualityName q)) i f)
                          (enumerate 0 tr)"
  have len: "length tr = 6" using template_shape [of s q] by (simp add: tr_def)
  have run: "transposeShape cg root s q True = Inr fr"
    unfolding fr_def tr_def off_def
    using assms
    by (rule transposeShape_validated)
  have "fr ! i = -1 \<or> (0 \<le> fr ! i \<and> fretPitchClass i (fr ! i) \<in> set (getChordNotes cg root (qualityName q)))"
    if "i < 6" for i
  proof -
    have "fr ! i = validateString (getChordNotes cg root (qualityName q)) i (tr ! i)"
      using that len by (simp add: fr_def nth_enumerate_eq)
    then show ?thesis by (simp add: validateString_eq [OF that])
  qed
  with run len show ?thesis by (simp add: fr_def)
qed

text \<open>
  Claim C1. For a root note that \<open>getNoteOnString\<close> accepts, any shape and quality, and
  an oracle that knows the chord, the transposer with validation returns six values;
  each is -1 or a fret from 0 upwards whose pitch class on its string, in standard
  tuning, is one of the notes the oracle gave.
\<close>

theorem transposeShape_validated_sound:
  assumes "indexOf chromatic (normalizeNoteName root) \<noteq> -1"
    and "getChordNotes cg root (qualityName q) \<noteq> []"
  shows "\<exists>fr. transposeShape cg root s q True = Inr fr \<and> length fr = 6 \<and>
           (\<forall>i<6. fr ! i = -1 \<or>
              (0 \<le> fr ! i \<and> fretPitchClass i (fr ! i) \<in> set (getChordNotes cg root (qualityName q))))"
proof -
  from assms(1) obtain pc where pc: "pitchClassOf root = Some pc"
    using accepted_root by blast
  from pc assms(2) show ?thesis by (rule transposeShape_validated_entries)
qed

theorem transposeShape_validated_sound_witness:
  "indexOf chromatic (normalizeNoteName ''Bb'') \<noteq> -1 \<and> getChordNotes triadChords ''Bb'' (qualityName Minor) \<noteq> [] \<and>
   (\<exists>fr. transposeShape triadChords ''Bb'' ShG Minor True = Inr fr \<and> length fr = 6 \<and>
           (\<forall>i<6. fr ! i = -1 \<or>
              (0 \<le> fr ! i \<and> fretPitchClass i (fr ! i) \<in> set (getChordNotes triadChords ''Bb'' (qualityName Minor)))))"
proof -
  have a: "indexOf chromatic (normalizeNoteName ''Bb'') \<noteq> -1" by code_simp
  have b: "getChordNotes triadChords ''Bb'' (qualityName Minor) \<noteq> []" by code_simp
  show ?thesis
    using a b transposeShape_validated_sound [where root = "''Bb''" and cg = triadChords
        and q = Minor and s = ShG]
    by blast
qed

text \<open>
  Claim C3. With validation disabled the transposer computes what the specification's
  algorithm computes: the target root fret is
  \<open>(pitch class of root - pitch class of the open root string + 12) mod 12\<close>, a value from
  0 to 11, the offset is that fret minus the template's root fret, and each of the six
  entries is -1 where the template has -1 and the template entry plus the offset
  otherwise.
\<close>

theorem transposeShape_unvalidated_follows_spec:
  assumes "pitchClassOf root = Some pc"
  shows "\<exists>fr. transposeShape cg root s q False = Inr fr \<and>
           transposeBySpec root s q = Some fr \<and> length fr = 6 \<and>
           0 \<le> findFretForPitchClass pc (tmpl_rootString (CAGED_SHAPES s q)) \<and>
           findFretForPitchClass pc (tmpl_rootString (CAGED_SHAPES s q)) \<le> 11 \<and>
           (\<forall>i<6. fr ! i =
              (if tmpl_frets (CAGED_SHAPES s q) ! i = -1 then -1
               else tmpl_frets (CAGED_SHAPES s q) ! i
                    + (findFretForPitchClass pc (tmpl_rootString (CAGED_SHAPES s q))
                       - tmpl_rootFret (CAGED_SHAPES s q))))"
  using transposeShape_unvalidated [OF assms, of cg s q] template_shape [of s q]
    findFret_range [of pc "tmpl_rootString (CAGED_SHAPES s q)"]
  by (simp add: transposeBySpec_def assms Let_def)

theorem transposeShape_unvalidated_follows_spec_witness:
  "pitchClassOf ''Bb'' = Some 10 \<and>
   transposeShape triadChords ''Bb'' ShG Minor False = Inr [6, 4, 3, 3, 6, 6] \<and>
   transposeBySpec ''Bb'' ShG Minor = Some [6, 4, 3, 3, 6, 6]"
proof -
  have a: "pitchClassOf ''Bb'' = Some 10" by code_simp
  have b: "transposeBySpec ''Bb'' ShG Minor = Some [6, 4, 3, 3, 6, 6]" by code_simp
  show ?thesis
    using a b transposeShape_unvalidated_follows_spec [OF a, of triadChords ShG Minor] by auto
qed

lemma pitchClassOf_C: "pitchClassOf ''C'' = Some 0" by code_simp
lemma pitchClassOf_G: "pitchClassOf ''G'' = Some 7" by code_simp
lemma pitchClassOf_D: "pitchClassOf ''D'' = Some 2" by code_simp

lemma findFret_simps:
  "findFretForPitchClass pc 0 = (pc - 4 + 12) mod 12"
  "findFretForPitchClass pc 1 = (pc - 9 + 12) mod 12"
  "findFretForPitchClass pc 2 = (pc - 2 + 12) mod 12"
  "findFretForPitchClass pc (Suc 0) = (pc - 9 + 12) mod 12"
  by (simp_all add: findFretForPitchClass_def tuningPitchClass_def eval_nat_numeral)

text \<open>
  Claim C4. The four scenarios of the specification, for an oracle that gives the triads
  C E G, G B D and D F A: the transposer returns \<open>[-1, 3, 2, 0, 1, 0]\<close> for C major in
  the C shape, \<open>[-1, 3, 5, 5, 5, 3]\<close> for C major in the A shape, \<open>[3, 5, 5, 4, 3, 3]\<close>
  for G major in the E shape and \<open>[-1, -1, 0, 2, 3, 1]\<close> for D minor in the D shape, with
  validation (the default) and without.
\<close>

theorem transposeShape_scenarios:
  assumes "set (getChordNotes cg ''C'' ''major'') = {0, 4, 7}"
    and "set (getChordNotes cg ''G'' ''major'') = {7, 11, 2}"
    and "set (getChordNotes cg ''D'' ''minor'') = {2, 5, 9}"
  shows "transposeShape cg ''C'' ShC Major validate = Inr [-1, 3, 2, 0, 1, 0] \<and>
         transposeShape cg ''C'' ShA Major validate = Inr [-1, 3, 5, 5, 5, 3] \<and>
         transposeShape cg ''G'' ShE Major validate = Inr [3, 5, 5, 4, 3, 3] \<and>
         transposeShape cg ''D'' ShD Minor validate = Inr [-1, -1, 0, 2, 3, 1]"
proof (cases validate)
  case False
  then show ?thesis
    by (simp add: transposeShape_unvalidated [OF pitchClassOf_C]
        transposeShape_unvalidated [OF pitchClassOf_G]
        transposeShape_unvalidated [OF pitchClassOf_D] findFret_simps)
next
  case True
  have c: "getChordNotes cg ''C'' (qualityName Major) \<noteq> []" using assms(1) by auto
  have g: "getChordNotes cg ''G'' (qualityName Major) \<noteq> []" using assms(2) by auto
  have d: "getChordNotes cg ''D'' (qualityName Minor) \<noteq> []" using assms(3) by auto
  have 1: "transposeShape cg ''C'' ShC Major True = Inr [-1, 3, 2, 0, 1, 0]"
    using assms(1)
    by (simp add: transposeShape_validated [where cg = cg, OF pitchClassOf_C c]
        findFret_simps validateString_eq fretPitchClass_def tuningPitchClass_def)
  have 2: "transposeShape cg ''C'' ShA Major True = Inr [-1, 3, 5, 5, 5, 3]"
    using assms(1)
    by (simp add: transposeShape_validated [where cg = cg, OF pitchClassOf_C c]
        findFret_simps validateString_eq fretPitchClass_def tuningPitchClass_def)
  have 3: "transposeShape cg ''G'' ShE Major True = Inr [3, 5, 5, 4, 3, 3]"
    using assms(2)
    by (simp add: transposeShape_validated [where cg = cg, OF pitchClassOf_G g]
        findFret_simps validateString_eq fretPitchClass_def tuningPitchClass_def)
  have 4: "transposeShape cg ''D'' ShD Minor True = Inr [-1, -1, 0, 2, 3, 1]"
    using assms(3)
    by (simp add: transposeShape_validated [where cg = cg, OF pitchClassOf_D d]
        findFret_simps validateString_eq fretPitchClass_def tuningPitchClass_def)
  from True 1 2 3 4 show ?thesis by simp
qed

theorem transposeShape_scenarios_witness:
  "set (getChordNotes triadChords ''C'' ''major'') = {0, 4, 7} \<and>
   set (getChordNotes triadChords ''G'' ''major'') = {7, 11, 2} \<and>
   set (getChordNotes triadChords ''D'' ''minor'') = {2, 5, 9} \<and>
   transposeShape triadChords ''C'' ShC Major True = Inr [-1, 3, 2, 0, 1, 0] \<and>
   transposeShape triadChords ''C'' ShA Major True = Inr [-1, 3, 5, 5, 5, 3] \<and>
   transposeShape triadChords ''G'' ShE Major True = Inr [3, 5, 5, 4, 3, 3] \<and>
   transposeShape triadChords ''D'' ShD Minor True = Inr [-1, -1, 0, 2, 3, 1]"
proof -
  have a: "set (getChordNotes triadChords ''C'' ''major'') = {0, 4, 7}" by code_simp
  have b: "set (getChordNotes triadChords ''G'' ''major'') = {7, 11, 2}" by code_simp
  have c: "set (getChordNotes triadChords ''D'' ''minor'') = {2, 5, 9}" by code_simp
  show ?thesis
    using a b c transposeShape_scenarios [where cg = triadChords and validate = True, OF a b c]
    by simp
qed

text \<open>
  Claim C5, as the code has it. When the offset takes a playable template string below
  fret 0, the transposer with validation (and an oracle that knows the chord) does not
  reject the transposition: it returns the six values with that string muted.
\<close>

theorem transposeShape_negative_fret_muted:
  assumes "getChordNotes cg root (qualityName q) \<noteq> []"
    and "getNoteOnString root (tmpl_rootString (CAGED_SHAPES s q)) = Inr targetRootFret"
    and "i < 6"
    and "tmpl_frets (CAGED_SHAPES s q) ! i \<noteq> -1"
    and "tmpl_frets (CAGED_SHAPES s q) ! i + (targetRootFret - tmpl_rootFret (CAGED_SHAPES s q)) < 0"
  shows "\<exists>fr. transposeShape cg root s q True = Inr fr \<and> length fr = 6 \<and> fr ! i = -1"
proof -
  have len: "length (tmpl_frets (CAGED_SHAPES s q)) = 6" using template_shape [of s q] by simp
  show ?thesis
    using assms len
    by (simp add: transposeShape_def Let_def nth_enumerate_eq validateString_def)
qed

theorem transposeShape_negative_fret_muted_witness:
  "getChordNotes triadChords ''F'' (qualityName Major) \<noteq> [] \<and>
   getNoteOnString ''F'' (tmpl_rootString (CAGED_SHAPES ShG Major)) = Inr 1 \<and>
   (2::nat) < 6 \<and> tmpl_frets (CAGED_SHAPES ShG Major) ! 2 \<noteq> -1 \<and>
   tmpl_frets (CAGED_SHAPES ShG Major) ! 2 + (1 - tmpl_rootFret (CAGED_SHAPES ShG Major)) < 0 \<and>
   (\<exists>fr. transposeShape triadChords ''F'' ShG Major True = Inr fr \<and> length fr = 6 \<and> fr ! 2 = -1)"
proof -
  have a: "getChordNotes triadChords ''F'' (qualityName Major) \<noteq> []" by code_simp
  have b: "getNoteOnString ''F'' (tmpl_rootString (CAGED_SHAPES ShG Major)) = Inr 1" by code_simp
  have c: "(2::nat) < 6" by simp
  have d: "tmpl_frets (CAGED_SHAPES ShG Major) ! 2 \<noteq> -1" by simp
  have e: "tmpl_frets (CAGED_SHAPES ShG Major) ! 2 + (1 - tmpl_rootFret (CAGED_SHAPES ShG Major)) < 0"
    by simp
  show ?thesis
    using a b c d e
      transposeShape_negative_fret_muted [where cg = triadChords and root = "''F''"
        and q = Major and s = ShG and i = 2 and targetRootFret = 1]
    by blast
qed

text \<open>
  Claim C5 as stated fails. For F major in the G shape the offset is 1 - 3 = -2; the
  three open strings of the template would land on fret -2, and the transposer returns
  the pattern with them muted. For F sharp minor in the G shape the offset is -1, the
  two open strings are lost in the same way, and the assembler keeps the voicing: it is
  the fourth entry of the result for a library that holds the usual barre chord only.
\<close>

theorem transposer_rejection_counterexample:
  "getNoteOnString ''F'' (tmpl_rootString (CAGED_SHAPES ShG Major)) = Inr 1 \<and>
   tmpl_rootFret (CAGED_SHAPES ShG Major) = 3 \<and>
   tmpl_frets (CAGED_SHAPES ShG Major) = [3, 2, 0, 0, 0, 3] \<and>
   transposeShape triadChords ''F'' ShG Major True = Inr [1, 0, -1, -1, -1, 1] \<and>
   getNoteOnString ''F#'' (tmpl_rootString (CAGED_SHAPES ShG Minor)) = Inr 2 \<and>
   tmpl_rootFret (CAGED_SHAPES ShG Minor) = 3 \<and>
   tmpl_frets (CAGED_SHAPES ShG Minor) = [3, 1, 0, 0, 3, 3] \<and>
   map pos_frets (generateMissingShape triadChords ''F#'' Minor 0 15 ShG) = [[1, 0, -1, -1, 1, 1]] \<and>
   map v_frets (getValidatedCAGEDVoicings triadChords sampleChords ''F#'' ''minor'' defaultOptions) =
     [[1, 3, 3, 1, 1, 1], [-1, 4, 2, 1, 2, 4], [-1, 1, 3, 3, 2, 1], [1, 0, -1, -1, 1, 1],
      [-1, -1, 1, 3, 4, 2]] \<and>
   map v_baseFret (getValidatedCAGEDVoicings triadChords sampleChords ''F#'' ''minor'' defaultOptions) =
     [2, 6, 9, 2, 4]"
  by code_simp

subsection \<open>The classifier\<close>

lemma absoluteFretsOf_length: "length (absoluteFretsOf frets baseFret) = length frets"
  by (simp add: absoluteFretsOf_def)

text \<open>
  Claim C8. For six fret values whose absolute form has strings 0 and 1 muted and string
  2 played, the classifier answers D; the open D major chord \<open>[-1, -1, 0, 2, 3, 2]\<close> at
  base fret 1 is the instance of the witness.
\<close>

theorem determineCAGEDShape_D:
  assumes "length frets = 6"
    and "absoluteFretsOf frets baseFret ! 0 = -1"
    and "absoluteFretsOf frets baseFret ! 1 = -1"
    and "0 \<le> absoluteFretsOf frets baseFret ! 2"
  shows "determineCAGEDShape frets baseFret = ShD"
proof -
  define ab where "ab = absoluteFretsOf frets baseFret"
  have len: "length ab = 6" using assms(1) by (simp add: ab_def absoluteFretsOf_length)
  have p2: "0 \<le> ab ! 2" using assms(4) by (simp add: ab_def)
  have "(2, ab ! 2) \<in> set (enumerate 0 ab)"
    using len by (simp add: in_set_enumerate_eq)
  with p2 have "(2, ab ! 2) \<in> set (filter (\<lambda>(idx, fret). fret \<ge> 0) (enumerate 0 ab))"
    by simp
  then have ne: "filter (\<lambda>(idx, fret). fret \<ge> 0) (enumerate 0 ab) \<noteq> []"
    by (metis empty_iff empty_set)
  show ?thesis
    using ne len assms(2-4)
    unfolding determineCAGEDShape_def ab_def [symmetric] Let_def
    by (simp add: nthOpt_def optGe_def)
qed

theorem determineCAGEDShape_D_witness:
  "length [-1, -1, 0, 2, 3, 2 :: int] = 6 \<and>
   absoluteFretsOf [-1, -1, 0, 2, 3, 2] 1 ! 0 = -1 \<and>
   absoluteFretsOf [-1, -1, 0, 2, 3, 2] 1 ! 1 = -1 \<and>
   0 \<le> absoluteFretsOf [-1, -1, 0, 2, 3, 2] 1 ! 2 \<and>
   determineCAGEDShape [-1, -1, 0, 2, 3, 2] 1 = ShD"
proof -
  have a: "length [-1, -1, 0, 2, 3, 2 :: int] = 6" by simp
  have b: "absoluteFretsOf [-1, -1, 0, 2, 3, 2] 1 ! 0 = -1" by (simp add: absoluteFretsOf_def)
  have c: "absoluteFretsOf [-1, -1, 0, 2, 3, 2] 1 ! 1 = -1" by (simp add: absoluteFretsOf_def)
  have d: "0 \<le> absoluteFretsOf [-1, -1, 0, 2, 3, 2] 1 ! 2" by (simp add: absoluteFretsOf_def)
  show ?thesis using a b c d determineCAGEDShape_D [OF a b c d] by simp
qed

lemma pitchClassOf_shapeName:
  "pitchClassOf ''C'' = Some 0" "pitchClassOf ''A'' = Some 9" "pitchClassOf ''G'' = Some 7"
  "pitchClassOf ''E'' = Some 4" "pitchClassOf ''D'' = Some 2"
  by code_simp+

lemma native_root_unvalidated:
  "transposeShape cg (shapeName s) s q False = Inr (tmpl_frets (CAGED_SHAPES s q))"
  by (cases s; cases q)
     (simp_all add: pitchClassOf_shapeName [THEN transposeShape_unvalidated] findFret_simps)

lemma native_root_validated:
  "transposeShape triadChords (shapeName s) s q True = Inr (tmpl_frets (CAGED_SHAPES s q))"
  by (cases s; cases q) (simp_all, code_simp+)

lemma native_root_classified:
  "determineCAGEDShape (tmpl_frets (CAGED_SHAPES s q)) baseFret = s"
proof (cases "baseFret > 1")
  case True
  then show ?thesis
    by (cases s; cases q)
       (simp_all add: determineCAGEDShape_def absoluteFretsOf_def Let_def nthOpt_def optGe_def
          optGt_def optLess_def eval_nat_numeral)
next
  case False
  then show ?thesis
    by (cases s; cases q)
       (simp_all add: determineCAGEDShape_def absoluteFretsOf_def Let_def nthOpt_def optGe_def
          optGt_def optLess_def eval_nat_numeral)
qed

text \<open>
  Claim C7. For every shape and quality, transposing the template to its own root (the
  note the shape is named after) gives the template back, both without validation and
  with validation against the triads, so no string is muted; and the classifier maps
  that pattern to the shape it came from, whatever base fret it is given.
\<close>

theorem classify_transposed_native_root:
  "transposeShape cg (shapeName s) s q False = Inr (tmpl_frets (CAGED_SHAPES s q)) \<and>
   transposeShape triadChords (shapeName s) s q True = Inr (tmpl_frets (CAGED_SHAPES s q)) \<and>
   determineCAGEDShape (tmpl_frets (CAGED_SHAPES s q)) baseFret = s"
  by (simp add: native_root_unvalidated native_root_validated native_root_classified)

subsection \<open>The first generator and the length of the result\<close>

lemma transposeBaseShape_length:
  "length (ts_frets (transposeBaseShape b st rs rf)) = length b"
  by (simp add: transposeBaseShape_def Let_def)

lemma shapeVoicing_frets:
  "shapeVoicing bs ri shp = Some v \<Longrightarrow>
     cv_frets v = ts_frets (transposeBaseShape (bs_frets (bs shp))
                    (jsRem (ri - getNoteIndex (shapeName shp) + 12) 12)
                    (bs_rootString (bs shp)) (bs_rootFret (bs shp)))"
  by (auto simp: shapeVoicing_def Let_def split: if_splits)

lemma voicingLoop_all:
  assumes "\<And>shp v. shapeVoicing bs ri shp = Some v \<Longrightarrow> P v"
  shows "\<forall>v\<in>set acc. P v \<Longrightarrow> \<forall>v\<in>set (voicingLoop bs ri shapes acc). P v"
proof (induction shapes arbitrary: acc)
  case Nil
  then show ?case by simp
next
  case (Cons shp rest)
  show ?case
  proof (cases "shapeVoicing bs ri shp")
    case None
    then show ?thesis using Cons by simp
  next
    case (Some v)
    then have pv: "P v" by (rule assms)
    have acc': "\<forall>w\<in>set (acc @ [v]). P w" using Cons.prems pv by simp
    show ?thesis
      using Some acc' Cons.IH [OF acc'] by (simp add: Let_def)
  qed
qed

lemma baseShapes_length:
  "length (bs_frets (baseMajorShapes s)) = 6" "length (bs_frets (baseMinorShapes s)) = 6"
  "length (bs_frets (baseMaj7Shapes s)) = 6" "length (bs_frets (baseMin7Shapes s)) = 6"
  "length (bs_frets (baseDom7Shapes s)) = 6" "length (bs_frets (baseSus2Shapes s)) = 6"
  "length (bs_frets (baseSus4Shapes s)) = 6"
  by (cases s; simp)+

lemma selectShapes_length: "length (bs_frets (fst (selectShapes qual) s)) = 6"
  by (simp add: selectShapes_def Let_def baseShapes_length)

lemma generate_lengths:
  assumes "generateCAGEDVoicings rootNote qual = Inr vs"
  shows "\<forall>v\<in>set vs. length (cv_frets v) = 6"
proof -
  obtain bs ord where sel: "selectShapes qual = (bs, ord)" by (cases "selectShapes qual")
  have bl: "\<And>s. length (bs_frets (bs s)) = 6"
    using selectShapes_length [of qual] sel by simp
  have step: "\<And>shp v. shapeVoicing bs (getNoteIndex rootNote) shp = Some v \<Longrightarrow> length (cv_frets v) = 6"
    by (simp add: shapeVoicing_frets transposeBaseShape_length bl)
  have "\<forall>v\<in>set (voicingLoop bs (getNoteIndex rootNote) ord []). length (cv_frets v) = 6"
    by (rule voicingLoop_all [where P = "\<lambda>v. length (cv_frets v) = 6", OF step]) simp_all
  then show ?thesis
    using assms sel by (auto simp: generateCAGEDVoicings_def Let_def split: if_splits)
qed

text \<open>
  Claim C10. \<open>getChordShape\<close> has no error branch and always returns six values. For a
  root note that is not in the note table it returns the fallback of six zeros; for any
  other root the generator returns a list of voicings, and the answer is the fallback
  when that list is empty and the frets of its first voicing otherwise.
\<close>

theorem getChordShape_total:
  "length (getChordShape rootNote qual) = 6 \<and>
   (getNoteIndex rootNote = -1 \<longrightarrow> getChordShape rootNote qual = [0, 0, 0, 0, 0, 0]) \<and>
   (getNoteIndex rootNote \<noteq> -1 \<longrightarrow>
      (\<exists>voicings. generateCAGEDVoicings rootNote qual = Inr voicings \<and>
         getChordShape rootNote qual =
           (case voicings of [] \<Rightarrow> [0, 0, 0, 0, 0, 0] | v # _ \<Rightarrow> cv_frets v)))"
proof (cases "generateCAGEDVoicings rootNote qual")
  case (Inl e)
  then have "getNoteIndex rootNote = -1"
    by (auto simp: generateCAGEDVoicings_def Let_def split: if_splits prod.splits)
  with Inl show ?thesis by (simp add: getChordShape_def)
next
  case (Inr vs)
  then have ok: "getNoteIndex rootNote \<noteq> -1"
    by (auto simp: generateCAGEDVoicings_def Let_def split: if_splits prod.splits)
  have six: "\<forall>v\<in>set vs. length (cv_frets v) = 6" using Inr by (rule generate_lengths)
  show ?thesis
  proof (cases vs)
    case Nil
    with Inr ok show ?thesis by (simp add: getChordShape_def)
  next
    case (Cons v rest)
    with Inr ok six show ?thesis by (simp add: getChordShape_def)
  qed
qed

theorem getChordShape_total_witness:
  "getNoteIndex ''X'' = -1 \<and> getChordShape ''X'' ''m7'' = [0, 0, 0, 0, 0, 0] \<and>
   getNoteIndex ''B'' \<noteq> -1 \<and> getChordShape ''B'' '''' = [-1, 14, 13, 11, 12, 11] \<and>
   length (getChordShape ''B'' '''') = 6"
proof -
  have a: "getNoteIndex ''X'' = -1" by code_simp
  have b: "getNoteIndex ''B'' \<noteq> -1" by code_simp
  have c: "getChordShape ''B'' '''' = [-1, 14, 13, 11, 12, 11]" by code_simp
  show ?thesis
    using a b c getChordShape_total [of "''X''" "''m7''"] getChordShape_total [of "''B''" "''''"]
    by simp
qed




lemma indexFrom_lower: "-1 \<le> indexFrom n xs x"
  by (induction xs arbitrary: n) auto

lemma getNoteIndex_lower: "-1 \<le> getNoteIndex note"
  by (simp add: getNoteIndex_def indexOf_def indexFrom_lower)

lemma getNoteIndex_shapeName: "getNoteIndex (shapeName shp) \<le> 11"
  by (cases shp; simp; code_simp)

lemma maxOf_None: "maxOf xs = None \<Longrightarrow> xs = []"
  by (induction xs) (auto split: option.splits)

lemma maxOf_bound: "maxOf xs = Some m \<Longrightarrow> \<forall>x\<in>set xs. x \<le> m"
  by (induction xs arbitrary: m) (fastforce split: option.splits dest: maxOf_None)+

lemma not_optGt_maxOf:
  assumes "\<not> optGt (maxOf (filter (\<lambda>f. f > 0) frets)) 15"
  shows "\<forall>f\<in>set frets. f \<le> 15"
proof (cases "maxOf (filter (\<lambda>f. f > 0) frets)")
  case None
  then have "filter (\<lambda>f. f > 0) frets = []" by (rule maxOf_None)
  then have "\<forall>f\<in>set frets. \<not> f > 0" by (simp add: filter_empty_conv)
  then show ?thesis by fastforce
next
  case (Some m)
  then have m: "m \<le> 15" using assms by (simp add: optGt_def)
  have "\<forall>x\<in>set (filter (\<lambda>f. f > 0) frets). x \<le> m" using Some by (rule maxOf_bound)
  with m show ?thesis by fastforce
qed

lemma transposeBaseShape_lower:
  assumes "0 \<le> st" and "\<forall>f\<in>set b. -1 \<le> f"
  shows "\<forall>f\<in>set (ts_frets (transposeBaseShape b st rs rf)). -1 \<le> f"
  using assms by (auto simp: transposeBaseShape_def Let_def)

lemma baseShapes_lower:
  "\<forall>f\<in>set (bs_frets (baseMajorShapes s)). -1 \<le> f" "\<forall>f\<in>set (bs_frets (baseMinorShapes s)). -1 \<le> f"
  "\<forall>f\<in>set (bs_frets (baseMaj7Shapes s)). -1 \<le> f" "\<forall>f\<in>set (bs_frets (baseMin7Shapes s)). -1 \<le> f"
  "\<forall>f\<in>set (bs_frets (baseDom7Shapes s)). -1 \<le> f" "\<forall>f\<in>set (bs_frets (baseSus2Shapes s)). -1 \<le> f"
  "\<forall>f\<in>set (bs_frets (baseSus4Shapes s)). -1 \<le> f"
  by (cases s; simp)+

lemma selectShapes_lower: "\<forall>f\<in>set (bs_frets (fst (selectShapes qual) s)). -1 \<le> f"
  by (simp add: selectShapes_def Let_def baseShapes_lower)

lemma shapeVoicing_in_range:
  assumes "shapeVoicing bs ri shp = Some v" and "-1 \<le> ri"
    and "length (bs_frets (bs shp)) = 6" and "\<forall>f\<in>set (bs_frets (bs shp)). -1 \<le> f"
  shows "sixFretsInRange (cv_frets v)"
proof -
  define st where "st = jsRem (ri - getNoteIndex (shapeName shp) + 12) 12"
  define t where "t = transposeBaseShape (bs_frets (bs shp)) st (bs_rootString (bs shp)) (bs_rootFret (bs shp))"
  have fr: "cv_frets v = ts_frets t"
    using shapeVoicing_frets [OF assms(1)] by (simp add: t_def st_def)
  have "0 \<le> ri - getNoteIndex (shapeName shp) + 12"
    using assms(2) getNoteIndex_shapeName [of shp] by arith
  then have st: "0 \<le> st" by (simp add: st_def jsRem_nonneg)
  have lo: "\<forall>f\<in>set (ts_frets t). -1 \<le> f"
    unfolding t_def using st assms(4) by (rule transposeBaseShape_lower)
  have "\<not> optGt (maxOf (filter (\<lambda>f. f > 0) (ts_frets t))) 15"
    using assms(1) by (auto simp: shapeVoicing_def Let_def t_def st_def split: if_splits)
  then have hi: "\<forall>f\<in>set (ts_frets t). f \<le> 15" by (rule not_optGt_maxOf)
  have len: "length (ts_frets t) = 6" by (simp add: t_def transposeBaseShape_length assms(3))
  show ?thesis
    using lo hi len by (fastforce simp: sixFretsInRange_def fr list_all_iff)
qed

lemma generate_in_range:
  assumes "generateCAGEDVoicings rootNote qual = Inr vs"
  shows "\<forall>v\<in>set vs. sixFretsInRange (cv_frets v)"
proof -
  obtain bs ord where sel: "selectShapes qual = (bs, ord)" by (cases "selectShapes qual")
  have bl: "\<And>s. length (bs_frets (bs s)) = 6"
    using selectShapes_length [of qual] sel by simp
  have blo: "\<And>s. \<forall>f\<in>set (bs_frets (bs s)). -1 \<le> f"
    using selectShapes_lower [of qual] sel by simp
  have step: "\<And>shp v. shapeVoicing bs (getNoteIndex rootNote) shp = Some v \<Longrightarrow> sixFretsInRange (cv_frets v)"
    by (rule shapeVoicing_in_range [OF _ getNoteIndex_lower bl blo])
  have "\<forall>v\<in>set (voicingLoop bs (getNoteIndex rootNote) ord []). sixFretsInRange (cv_frets v)"
    by (rule voicingLoop_all [where P = "\<lambda>v. sixFretsInRange (cv_frets v)", OF step]) simp_all
  then show ?thesis
    using assms sel by (auto simp: generateCAGEDVoicings_def Let_def split: if_splits)
qed

subsection \<open>Bounds on transposed patterns\<close>

lemma jsRem_upper: "jsRem a 12 \<le> 11"
proof (cases "0 \<le> a")
  case True
  then show ?thesis by (simp add: jsRem_nonneg)
next
  case False
  then have "sgn a = -1" by simp
  then show ?thesis by (simp add: jsRem_def)
qed

lemma getNoteOnString_upper: "getNoteOnString note i = Inr t \<Longrightarrow> t \<le> 11"
  using jsRem_upper by (auto simp: getNoteOnString_def Let_def split: if_splits)

lemma validateString_cases: "validateString ns i f = -1 \<or> validateString ns i f = f"
  by (simp add: validateString_def Let_def split: list.splits)

lemma transposeShape_Inr:
  assumes "transposeShape cg root s q v = Inr fr"
  shows "\<exists>pc. pitchClassOf root = Some pc"
proof (cases "pitchClassOf root")
  case None
  then show ?thesis
    using assms getNoteOnString_invalid [OF None, of "tmpl_rootString (CAGED_SHAPES s q)"]
    by (simp add: transposeShape_def Let_def)
next
  case (Some pc)
  then show ?thesis by simp
qed

lemma transposed_upper:
  assumes "t \<le> 11"
  shows "\<forall>f\<in>set (map (\<lambda>v. if v = -1 then -1 else v + (t - tmpl_rootFret (CAGED_SHAPES s q)))
                      (tmpl_frets (CAGED_SHAPES s q))). f \<le> 14"
  using assms template_frets_range [of s q] template_shape [of s q] by fastforce

lemma validated_upper:
  assumes "\<forall>f\<in>set tr. f \<le> (14::int)"
  shows "\<forall>f\<in>set (map (\<lambda>(i, f). validateString ns i f) (enumerate 0 tr)). f \<le> 14"
proof
  fix g assume "g \<in> set (map (\<lambda>(i, f). validateString ns i f) (enumerate 0 tr))"
  then obtain i f where mem: "(i, f) \<in> set (enumerate 0 tr)" and g: "g = validateString ns i f"
    by auto
  from mem have "f \<in> set tr" by (auto simp: in_set_enumerate_eq)
  then have "f \<le> 14" using assms by blast
  then show "g \<le> 14" using validateString_cases [of ns i f] g by auto
qed

lemma transposeShape_upper:
  assumes "transposeShape cg root s q v = Inr fr"
  shows "length fr = 6 \<and> (\<forall>f\<in>set fr. f \<le> 14)"
proof -
  obtain t where t: "getNoteOnString root (tmpl_rootString (CAGED_SHAPES s q)) = Inr t"
    using assms by (cases "getNoteOnString root (tmpl_rootString (CAGED_SHAPES s q))")
      (simp_all add: transposeShape_def Let_def)
  have t11: "t \<le> 11" using t by (rule getNoteOnString_upper)
  define tr where "tr = map (\<lambda>v. if v = -1 then -1 else v + (t - tmpl_rootFret (CAGED_SHAPES s q)))
                      (tmpl_frets (CAGED_SHAPES s q))"
  have up: "\<forall>f\<in>set tr. f \<le> 14" unfolding tr_def using t11 by (rule transposed_upper)
  have len: "length tr = 6" using template_shape [of s q] by (simp add: tr_def)
  have "fr = tr \<or> fr = map (\<lambda>(i, f). validateString (getChordNotes cg root (qualityName q)) i f) (enumerate 0 tr)"
    using assms t by (auto simp: transposeShape_def Let_def tr_def split: if_splits)
  then show ?thesis
  proof
    assume "fr = tr"
    with up len show ?thesis by simp
  next
    assume v: "fr = map (\<lambda>(i, f). validateString (getChordNotes cg root (qualityName q)) i f) (enumerate 0 tr)"
    have "\<forall>f\<in>set fr. f \<le> 14" unfolding v using up by (rule validated_upper)
    moreover have "length fr = 6" using len by (simp add: v)
    ultimately show ?thesis by simp
  qed
qed

lemma minOf_None: "minOf xs = None \<Longrightarrow> xs = []"
  by (induction xs) (auto split: option.splits)

lemma minOf_Some: "minOf xs = Some m \<Longrightarrow> m \<in> set xs \<and> (\<forall>x\<in>set xs. m \<le> x)"
proof (induction xs arbitrary: m)
  case Nil
  then show ?case by simp
next
  case (Cons a xs)
  show ?case
  proof (cases "minOf xs")
    case None
    then have "xs = []" by (rule minOf_None)
    with Cons.prems show ?thesis by simp
  next
    case (Some k)
    then have k: "k \<in> set xs \<and> (\<forall>x\<in>set xs. k \<le> x)" by (rule Cons.IH)
    have "m = min a k" using Cons.prems Some by simp
    with k show ?thesis by (auto simp: min_def)
  qed
qed

lemma baseFretOf_bounds: "1 \<le> baseFretOf fr \<and> (\<forall>f\<in>set fr. 0 < f \<longrightarrow> baseFretOf fr \<le> f)"
proof (cases "minOf (filter (\<lambda>f. f > 0) fr)")
  case None
  then have "filter (\<lambda>f. f > 0) fr = []" by (rule minOf_None)
  then have "\<forall>f\<in>set fr. \<not> 0 < f" by (simp add: filter_empty_conv)
  with None show ?thesis by (simp add: baseFretOf_def)
next
  case (Some m)
  from minOf_Some [OF Some] show ?thesis by (auto simp: baseFretOf_def Some)
qed

lemma chordPosition_fields:
  "pos_frets (absoluteFretsToChordPosition fr s q) =
     map (\<lambda>fret. if fret = -1 then -1 else if fret = 0 then 0
                   else if baseFretOf fr = 1 then fret else fret - baseFretOf fr + 1) fr"
  "pos_baseFret (absoluteFretsToChordPosition fr s q) = baseFretOf fr"
  by (simp_all add: absoluteFretsToChordPosition_def Let_def baseFretOf_def)

lemma chordPosition_frets_range:
  assumes "\<forall>f\<in>set fr. -1 \<le> f \<and> f \<le> 14"
  shows "\<forall>g\<in>set (pos_frets (absoluteFretsToChordPosition fr s q)). -1 \<le> g \<and> g \<le> 14"
  using assms baseFretOf_bounds [of fr] by (fastforce simp: chordPosition_fields)

lemma chordPosition_roundtrip:
  assumes "\<forall>f\<in>set fr. -1 \<le> f"
  shows "toAbsoluteFrets (absoluteFretsToChordPosition fr s q) = fr"
proof (cases "baseFretOf fr \<le> 1")
  case True
  then have "baseFretOf fr = 1" using baseFretOf_bounds [of fr] by simp
  then show ?thesis
    by (simp add: toAbsoluteFrets_def chordPosition_fields map_idI)
next
  case False
  have "map ((\<lambda>fret. if fret = -1 then -1 else if fret = 0 then 0 else baseFretOf fr + fret - 1)
             \<circ> (\<lambda>fret. if fret = -1 then -1 else if fret = 0 then 0
                          else if baseFretOf fr = 1 then fret else fret - baseFretOf fr + 1)) fr = fr"
  proof (rule map_idI)
    fix f assume "f \<in> set fr"
    then have "-1 \<le> f" "0 < f \<longrightarrow> baseFretOf fr \<le> f"
      using assms baseFretOf_bounds [of fr] by auto
    then show "((\<lambda>fret. if fret = -1 then -1 else if fret = 0 then 0 else baseFretOf fr + fret - 1)
             \<circ> (\<lambda>fret. if fret = -1 then -1 else if fret = 0 then 0
                          else if baseFretOf fr = 1 then fret else fret - baseFretOf fr + 1)) f = f"
      using False by auto
  qed
  then show ?thesis using False
    unfolding toAbsoluteFrets_def chordPosition_fields by simp
qed

subsection \<open>The enhanced assembler\<close>

lemma insertBy_set: "set (insertBy cmp x ys) = insert x (set ys)"
  by (induction ys) auto

lemma fold_insertBy_set: "set (fold (insertBy cmp) xs acc) = set xs \<union> set acc"
  by (induction xs arbitrary: acc) (auto simp: insertBy_set)

lemma stableSortBy_set: "set (stableSortBy cmp xs) = set xs"
  by (simp add: stableSortBy_def fold_insertBy_set)

lemma slice0_subset: "set (slice0 xs n) \<subseteq> set xs"
  by (auto simp: slice0_def dest: in_set_takeD)

lemma enhance_fields:
  "v_frets (enhance root qual ns p) = pos_frets p"
  "v_baseFret (enhance root qual ns p) = pos_baseFret p"
  "v_validated (enhance root qual ns p) = validateChordVoicing (toAbsoluteFrets p) ns STANDARD_TUNING"
  by (simp_all add: enhance_def Let_def)

lemma absoluteFretsOf_toAbsoluteFrets:
  "absoluteFretsOf (pos_frets p) (pos_baseFret p) = toAbsoluteFrets p"
  by (auto simp: absoluteFretsOf_def toAbsoluteFrets_def)

lemma generateMissingShape_elem:
  assumes "p \<in> set (generateMissingShape cg root qm lo hi s)"
  shows "\<exists>fr. transposeShape cg root s qm True = Inr fr \<and> (\<forall>f\<in>set fr. -1 \<le> f)
           \<and> p = absoluteFretsToChordPosition fr s qm"
proof (cases "transposeShape cg root s qm True")
  case (Inl e)
  then show ?thesis using assms by (simp add: generateMissingShape_def)
next
  case (Inr fr)
  then have "(\<forall>f\<in>set fr. -1 \<le> f) \<and> p = absoluteFretsToChordPosition fr s qm"
    using assms
    by (auto simp: generateMissingShape_def Let_def list_ex_iff not_less split: if_splits)
  with Inr show ?thesis by simp
qed

lemma no_notes_no_voicings:
  "getChordNotes cg root qual = [] \<Longrightarrow> getValidatedCAGEDVoicings cg chords root qual options = []"
  unfolding getValidatedCAGEDVoicings_def by (simp only: Let_def simp_thms if_True)

lemma no_library_no_voicings:
  "getChordVoicingsFromDB chords root qual = [] \<Longrightarrow>
     getValidatedCAGEDVoicings cg chords root qual options = []"
  unfolding getValidatedCAGEDVoicings_def by (simp only: Let_def simp_thms if_True if_cancel)

lemma assembled_result:
  assumes "getChordNotes cg root qual \<noteq> []" and "getChordVoicingsFromDB chords root qual \<noteq> []"
  shows "getValidatedCAGEDVoicings cg chords root qual options =
           slice0 (if onlyValidated options
                   then filter v_validated (map (enhance root qual (getChordNotes cg root qual))
                                              (assembledPositions cg chords root qual options))
                   else map (enhance root qual (getChordNotes cg root qual))
                          (assembledPositions cg chords root qual options))
             (maxVoicings options)"
  using assms
  by (cases "mapQuality qual")
     (simp_all add: getValidatedCAGEDVoicings_def assembledPositions_def Let_def)

lemma assembledPositions_elem:
  assumes "p \<in> set (assembledPositions cg chords root qual options)"
  shows "p \<in> set (getChordVoicingsFromDB chords root qual) \<or>
         (\<exists>qm s. mapQuality qual = Some qm \<and>
            p \<in> set (generateMissingShape cg root qm (minFret options) (maxFret options) s))"
proof -
  define db where "db = sortByDifficulty (filterVoicingsByPosition (getChordVoicingsFromDB chords root qual)
                                    (minFret options) (maxFret options))"
  have dbs: "set db \<subseteq> set (getChordVoicingsFromDB chords root qual)"
    by (auto simp: db_def sortByDifficulty_def stableSortBy_set filterVoicingsByPosition_def)
  show ?thesis
  proof (cases "mapQuality qual")
    case None
    then have "p \<in> set db" using assms by (simp add: assembledPositions_def db_def)
    with dbs show ?thesis by blast
  next
    case (Some qm)
    then have "p \<in> set db \<or> (\<exists>s. p \<in> set (generateMissingShape cg root qm (minFret options) (maxFret options) s))"
      using assms by (auto simp: assembledPositions_def db_def Let_def split: if_splits)
    with dbs Some show ?thesis by blast
  qed
qed

lemma assembled_voicing:
  assumes "v \<in> set (getValidatedCAGEDVoicings cg chords root qual options)"
  shows "getChordNotes cg root qual \<noteq> [] \<and>
         (\<exists>p. v = enhance root qual (getChordNotes cg root qual) p \<and>
              (onlyValidated options \<longrightarrow> v_validated v) \<and>
              (p \<in> set (getChordVoicingsFromDB chords root qual) \<or>
               (\<exists>qm s. mapQuality qual = Some qm \<and>
                  p \<in> set (generateMissingShape cg root qm (minFret options) (maxFret options) s))))"
proof -
  have ne: "getChordNotes cg root qual \<noteq> []"
    using assms no_notes_no_voicings [of cg root qual chords options] by auto
  have dbne: "getChordVoicingsFromDB chords root qual \<noteq> []"
    using assms no_library_no_voicings [of chords root qual cg options] by auto
  define en where "en = map (enhance root qual (getChordNotes cg root qual))
                          (assembledPositions cg chords root qual options)"
  define kept where "kept = (if onlyValidated options then filter v_validated en else en)"
  have "v \<in> set (slice0 kept (maxVoicings options))"
    using assms by (simp only: assembled_result [OF ne dbne] en_def kept_def)
  moreover have "set (slice0 kept (maxVoicings options)) \<subseteq> set kept" by (rule slice0_subset)
  ultimately have k: "v \<in> set kept" by (rule rev_subsetD)
  have ven: "v \<in> set en" using k by (cases "onlyValidated options") (simp_all add: kept_def)
  have val: "onlyValidated options \<longrightarrow> v_validated v"
    using k by (cases "onlyValidated options") (simp_all add: kept_def)
  from ven obtain p where p: "p \<in> set (assembledPositions cg chords root qual options)"
    and vp: "v = enhance root qual (getChordNotes cg root qual) p"
    unfolding en_def by (auto simp only: set_map image_iff)
  have src: "p \<in> set (getChordVoicingsFromDB chords root qual) \<or>
               (\<exists>qm s. mapQuality qual = Some qm \<and>
                  p \<in> set (generateMissingShape cg root qm (minFret options) (maxFret options) s))"
    using p by (rule assembledPositions_elem)
  show ?thesis
    by (intro conjI exI [of _ p]) (rule ne, rule vp, rule val, rule src)
qed

lemma generated_in_range:
  assumes "p \<in> set (generateMissingShape cg root qm lo hi s)"
  shows "sixFretsInRange (pos_frets p)"
proof -
  from generateMissingShape_elem [OF assms] obtain fr where
    run: "transposeShape cg root s qm True = Inr fr" and lo: "\<forall>f\<in>set fr. -1 \<le> f"
    and p: "p = absoluteFretsToChordPosition fr s qm" by blast
  from transposeShape_upper [OF run] have len: "length fr = 6" and hi: "\<forall>f\<in>set fr. f \<le> 14"
    by simp_all
  have "\<forall>f\<in>set fr. -1 \<le> f \<and> f \<le> 14" using lo hi by blast
  then have "\<forall>g\<in>set (pos_frets p). -1 \<le> g \<and> g \<le> 14"
    unfolding p by (rule chordPosition_frets_range)
  then have "\<forall>g\<in>set (pos_frets p). -1 \<le> g \<and> g \<le> 24" by fastforce
  moreover have "length (pos_frets p) = 6" by (simp add: p chordPosition_fields len)
  ultimately show ?thesis by (simp add: sixFretsInRange_def list_all_iff)
qed

lemma assembled_in_range:
  assumes "list_all (\<lambda>p. sixFretsInRange (pos_frets p)) (getChordVoicingsFromDB chords root qual)"
    and "v \<in> set (getValidatedCAGEDVoicings cg chords root qual options)"
  shows "sixFretsInRange (v_frets v)"
proof -
  from assembled_voicing [OF assms(2)] obtain p where
    vp: "v = enhance root qual (getChordNotes cg root qual) p"
    and src: "p \<in> set (getChordVoicingsFromDB chords root qual) \<or>
               (\<exists>qm s. mapQuality qual = Some qm \<and>
                  p \<in> set (generateMissingShape cg root qm (minFret options) (maxFret options) s))"
    by blast
  have "sixFretsInRange (pos_frets p)"
    using src assms(1) generated_in_range by (auto simp: list_all_iff)
  then show ?thesis by (simp add: vp enhance_fields)
qed

text \<open>
  Claim C6. Every voicing of the first generator has six fret values, each from -1 to
  24. The same holds for every voicing of the enhanced assembler, given that the
  library voicings for the chord have six fret values from -1 to 24, as the data model
  says of every voicing.
\<close>

theorem voicings_six_frets_in_range:
  "list_all (\<lambda>v. sixFretsInRange (cv_frets v))
     (case generateCAGEDVoicings rootNote qual0 of Inl e \<Rightarrow> [] | Inr voicings \<Rightarrow> voicings) \<and>
   (list_all (\<lambda>p. sixFretsInRange (pos_frets p)) (getChordVoicingsFromDB chords root qual) \<longrightarrow>
    list_all (\<lambda>v. sixFretsInRange (v_frets v))
      (getValidatedCAGEDVoicings cg chords root qual options))"
proof -
  have a: "list_all (\<lambda>v. sixFretsInRange (cv_frets v))
     (case generateCAGEDVoicings rootNote qual0 of Inl e \<Rightarrow> [] | Inr voicings \<Rightarrow> voicings)"
  proof (cases "generateCAGEDVoicings rootNote qual0")
    case (Inl e)
    then show ?thesis by simp
  next
    case (Inr vs)
    from generate_in_range [OF Inr] Inr show ?thesis by (simp add: list_all_iff)
  qed
  have b: "list_all (\<lambda>v. sixFretsInRange (v_frets v))
      (getValidatedCAGEDVoicings cg chords root qual options)"
    if "list_all (\<lambda>p. sixFretsInRange (pos_frets p)) (getChordVoicingsFromDB chords root qual)"
    using assembled_in_range [OF that] by (simp add: list_all_iff)
  from a b show ?thesis by blast
qed

theorem voicings_six_frets_in_range_witness:
  "list_all (\<lambda>p. sixFretsInRange (pos_frets p)) (getChordVoicingsFromDB sampleChords ''C'' ''major'') \<and>
   list_all (\<lambda>v. sixFretsInRange (v_frets v))
      (getValidatedCAGEDVoicings triadChords sampleChords ''C'' ''major'' defaultOptions) \<and>
   length (getValidatedCAGEDVoicings triadChords sampleChords ''C'' ''major'' defaultOptions) = 5 \<and>
   list_all (\<lambda>v. sixFretsInRange (cv_frets v))
     (case generateCAGEDVoicings ''C'' ''major'' of Inl e \<Rightarrow> [] | Inr voicings \<Rightarrow> voicings)"
proof -
  have a: "list_all (\<lambda>p. sixFretsInRange (pos_frets p)) (getChordVoicingsFromDB sampleChords ''C'' ''major'')"
    by code_simp
  have b: "length (getValidatedCAGEDVoicings triadChords sampleChords ''C'' ''major'' defaultOptions) = 5"
    by code_simp
  show ?thesis
    using a b voicings_six_frets_in_range [of "''C''" "''major''" sampleChords "''C''" "''major''"
        triadChords defaultOptions]
    by simp
qed

lemma Note_transpose_beyond:
  "\<not> i < 6 \<Longrightarrow> Note_transpose (nthOpt STANDARD_TUNING i) f = None"
  by (simp add: Note_transpose_def nthOpt_def STANDARD_TUNING_def)

lemma enumerate_take_mem:
  assumes "(i, f) \<in> set (enumerate 0 xs)" and "i < n"
  shows "(i, f) \<in> set (enumerate 0 (take n xs))"
  using assms by (simp add: in_set_enumerate_eq)

lemma validateChordVoicing_covers:
  assumes "validateChordVoicing fr ns STANDARD_TUNING"
  shows "set ns \<subseteq> set (soundingPitchClasses fr)"
proof
  fix c assume c: "c \<in> set ns"
  have "list_all (\<lambda>e. list_ex (\<lambda>n. n = Some e) (fretsToNotes fr STANDARD_TUNING)) ns"
    using assms by (simp add: validateChordVoicing_def Let_def split: if_splits)
  then have "Some c \<in> set (fretsToNotes fr STANDARD_TUNING)"
    using c by (auto simp: list_all_iff list_ex_iff)
  then obtain i f where mem: "(i, f) \<in> set (enumerate 0 fr)" and f: "f \<noteq> -1"
    and t: "Note_transpose (nthOpt STANDARD_TUNING i) f = Some c"
    by (auto simp: fretsToNotes_def)
  have i: "i < 6" using t Note_transpose_beyond [of i f] by (cases "i < 6") simp_all
  have "fretPitchClass i f = c" using t Note_transpose_tuning [OF i, of f] by simp
  moreover have "(i, f) \<in> set (enumerate 0 (take 6 fr))" using mem i by (rule enumerate_take_mem)
  ultimately show "c \<in> set (soundingPitchClasses fr)"
    using f by (force simp: soundingPitchClasses_def)
qed

lemma validated_entries_sound:
  assumes "length fr = 6"
    and "\<forall>i<6. fr ! i = -1 \<or> (0 \<le> fr ! i \<and> fretPitchClass i (fr ! i) \<in> set ns)"
  shows "set (soundingPitchClasses fr) \<subseteq> set ns"
proof
  fix c assume "c \<in> set (soundingPitchClasses fr)"
  then obtain i f where mem: "(i, f) \<in> set (enumerate 0 (take 6 fr))" and f: "f \<noteq> -1"
    and c: "c = fretPitchClass i f"
    by (auto simp: soundingPitchClasses_def)
  from mem have "i < 6" "f = fr ! i" using assms(1) by (auto simp: in_set_enumerate_eq)
  with assms(2) f c show "c \<in> set ns" by auto
qed

lemma map_of_qualityMap:
  "map_of qualityMap '''' = None" "map_of qualityMap ''major'' = Some ''''"
  "map_of qualityMap ''m'' = None" "map_of qualityMap ''minor'' = Some ''m''"
  by (simp_all add: qualityMap_def)

lemma getChordNotes_mapped:
  assumes "mapQuality qual = Some qm" and "getChordNotes cg root qual \<noteq> []"
  shows "getChordNotes cg root (qualityName qm) = getChordNotes cg root qual"
proof -
  have "(qual = '''' \<or> qual = ''major'') \<and> qm = Major \<or> (qual = ''m'' \<or> qual = ''minor'') \<and> qm = Minor"
    using assms(1) by (auto simp: mapQuality_def split: if_splits)
  then consider "qual = ''''" "qm = Major" | "qual = ''major''" "qm = Major"
    | "qual = ''m''" "qm = Minor" | "qual = ''minor''" "qm = Minor" by blast
  then show ?thesis
  proof cases
    case 1
    then show ?thesis using assms(2)
      by (simp add: getChordNotes_def map_of_qualityMap Let_def split: if_splits)
  next
    case 2
    then show ?thesis by simp
  next
    case 3
    then show ?thesis using assms(2)
      by (simp add: getChordNotes_def map_of_qualityMap Let_def split: if_splits)
  next
    case 4
    then show ?thesis by simp
  qed
qed

lemma generated_sounds_chord:
  assumes "p \<in> set (generateMissingShape cg root qm lo hi s)"
    and "getChordNotes cg root (qualityName qm) \<noteq> []"
  shows "set (soundingPitchClasses (toAbsoluteFrets p)) \<subseteq> set (getChordNotes cg root (qualityName qm))"
proof -
  from generateMissingShape_elem [OF assms(1)] obtain fr where
    run: "transposeShape cg root s qm True = Inr fr" and lo: "\<forall>f\<in>set fr. -1 \<le> f"
    and p: "p = absoluteFretsToChordPosition fr s qm" by blast
  from transposeShape_Inr [OF run] obtain pc where pc: "pitchClassOf root = Some pc" by blast
  from transposeShape_validated_entries [OF pc assms(2), of s] run
  have "length fr = 6 \<and> (\<forall>i<6. fr ! i = -1 \<or>
          (0 \<le> fr ! i \<and> fretPitchClass i (fr ! i) \<in> set (getChordNotes cg root (qualityName qm))))"
    by auto
  then have "set (soundingPitchClasses fr) \<subseteq> set (getChordNotes cg root (qualityName qm))"
    using validated_entries_sound by blast
  moreover have "toAbsoluteFrets p = fr" unfolding p using lo by (rule chordPosition_roundtrip)
  ultimately show ?thesis by simp
qed

text \<open>
  Claim C2, as the code has it. With \<open>onlyValidated\<close> set, every returned voicing sounds
  every note of the chord on some non-muted string of its absolute fret pattern. A
  voicing that does not come from the library, that is, one generated from a template,
  sounds no other note.
\<close>

theorem validated_voicing_tones:
  assumes "onlyValidated options"
    and "v \<in> set (getValidatedCAGEDVoicings cg chords root qual options)"
  shows "set (getChordNotes cg root qual)
           \<subseteq> set (soundingPitchClasses (absoluteFretsOf (v_frets v) (v_baseFret v))) \<and>
         ((\<exists>p\<in>set (getChordVoicingsFromDB chords root qual).
              v_frets v = pos_frets p \<and> v_baseFret v = pos_baseFret p) \<or>
          set (soundingPitchClasses (absoluteFretsOf (v_frets v) (v_baseFret v)))
            \<subseteq> set (getChordNotes cg root qual))"
proof -
  from assembled_voicing [OF assms(2)] assms(1) obtain p where
    ne: "getChordNotes cg root qual \<noteq> []"
    and vp: "v = enhance root qual (getChordNotes cg root qual) p"
    and val: "v_validated v"
    and src: "p \<in> set (getChordVoicingsFromDB chords root qual) \<or>
               (\<exists>qm s. mapQuality qual = Some qm \<and>
                  p \<in> set (generateMissingShape cg root qm (minFret options) (maxFret options) s))"
    by blast
  have ab: "absoluteFretsOf (v_frets v) (v_baseFret v) = toAbsoluteFrets p"
    by (simp add: vp enhance_fields absoluteFretsOf_toAbsoluteFrets)
  have "validateChordVoicing (toAbsoluteFrets p) (getChordNotes cg root qual) STANDARD_TUNING"
    using val by (simp add: vp enhance_fields)
  then have cover: "set (getChordNotes cg root qual) \<subseteq> set (soundingPitchClasses (toAbsoluteFrets p))"
    by (rule validateChordVoicing_covers)
  from src have "(\<exists>p\<in>set (getChordVoicingsFromDB chords root qual).
              v_frets v = pos_frets p \<and> v_baseFret v = pos_baseFret p) \<or>
          set (soundingPitchClasses (toAbsoluteFrets p)) \<subseteq> set (getChordNotes cg root qual)"
  proof
    assume "p \<in> set (getChordVoicingsFromDB chords root qual)"
    then show ?thesis by (auto simp: vp enhance_fields)
  next
    assume "\<exists>qm s. mapQuality qual = Some qm \<and>
                  p \<in> set (generateMissingShape cg root qm (minFret options) (maxFret options) s)"
    then obtain qm s where qm: "mapQuality qual = Some qm"
      and g: "p \<in> set (generateMissingShape cg root qm (minFret options) (maxFret options) s)"
      by blast
    have eq: "getChordNotes cg root (qualityName qm) = getChordNotes cg root qual"
      using qm ne by (rule getChordNotes_mapped)
    from generated_sounds_chord [OF g] ne show ?thesis by (simp add: eq)
  qed
  with cover show ?thesis by (simp add: ab)
qed

theorem validated_voicing_tones_witness:
  "onlyValidated defaultOptions \<and>
   getValidatedCAGEDVoicings triadChords sampleChords ''C'' ''major'' defaultOptions ! 2
     \<in> set (getValidatedCAGEDVoicings triadChords sampleChords ''C'' ''major'' defaultOptions) \<and>
   v_frets (getValidatedCAGEDVoicings triadChords sampleChords ''C'' ''major'' defaultOptions ! 2)
     = [-1, 1, 3, 3, 3, 1] \<and>
   set (getChordNotes triadChords ''C'' ''major'')
     \<subseteq> set (soundingPitchClasses (absoluteFretsOf
          (v_frets (getValidatedCAGEDVoicings triadChords sampleChords ''C'' ''major'' defaultOptions ! 2))
          (v_baseFret (getValidatedCAGEDVoicings triadChords sampleChords ''C'' ''major'' defaultOptions ! 2))))"
proof -
  have a: "onlyValidated defaultOptions" by (simp add: defaultOptions_def)
  have l: "length (getValidatedCAGEDVoicings triadChords sampleChords ''C'' ''major'' defaultOptions) = 5"
    by code_simp
  have b: "getValidatedCAGEDVoicings triadChords sampleChords ''C'' ''major'' defaultOptions ! 2
     \<in> set (getValidatedCAGEDVoicings triadChords sampleChords ''C'' ''major'' defaultOptions)"
    by (rule nth_mem) (simp add: l)
  have c: "v_frets (getValidatedCAGEDVoicings triadChords sampleChords ''C'' ''major'' defaultOptions ! 2)
     = [-1, 1, 3, 3, 3, 1]" by code_simp
  show ?thesis
    using a b c validated_voicing_tones [OF a b] by blast
qed

text \<open>
  Claim C2 as stated fails. \<open>validateChordVoicing\<close> asks that every chord note is played,
  not that every played note is in the chord: the library voicing x02010 passes as
  A minor, is returned first, and its open G string sounds pitch class 7, which is not
  among A, C, E.
\<close>

theorem validated_voicing_foreign_note_counterexample:
  "getChordNotes triadChords ''A'' ''minor'' = [9, 0, 4] \<and>
   v_validated (hd (getValidatedCAGEDVoicings triadChords looseChords ''A'' ''minor'' defaultOptions)) \<and>
   v_frets (hd (getValidatedCAGEDVoicings triadChords looseChords ''A'' ''minor'' defaultOptions))
     = [-1, 0, 2, 0, 1, 0] \<and>
   v_baseFret (hd (getValidatedCAGEDVoicings triadChords looseChords ''A'' ''minor'' defaultOptions)) = 1 \<and>
   absoluteFretsOf [-1, 0, 2, 0, 1, 0] 1 ! 3 = 0 \<and>
   fretPitchClass 3 0 = 7 \<and>
   soundingPitchClasses (absoluteFretsOf [-1, 0, 2, 0, 1, 0] 1) = [9, 4, 7, 0, 4]"
  by code_simp

end
